theory Spec2Isabelle
  imports Complex_Main "HOL-Library.Sublist"
begin

section \<open>Values, signals and errors\<close>

text \<open>
  The TypeScript source passes untyped data (\<open>any\<close>) in signal parameters and in
  chip contexts.  The model uses one small type of values for both.
\<close>

datatype val = VUndefined | VBool bool | VNum int | VStr string | VChip nat

text \<open>
  \<open>class Signal\<close>: an immutable name with a parameter bag.  The constructor replaces
  a missing or empty (falsy) name by \<open>"default"\<close> and a missing bag by \<open>{}\<close>.
\<close>

record signal =
  sig_name :: string
  sig_params :: "(string \<times> val) list"

definition new_Signal :: "string option \<Rightarrow> (string \<times> val) list option \<Rightarrow> signal" where
  "new_Signal n p =
     \<lparr> sig_name = (case n of None \<Rightarrow> ''default''
                     | Some s \<Rightarrow> if s = [] then ''default'' else s),
       sig_params = (case p of None \<Rightarrow> [] | Some q \<Rightarrow> q) \<rparr>"

datatype chipState = Inactive | Active | Paused

text \<open>
  Every \<open>throw util.shortStackError(...)\<close> of the source is one constructor; the
  method name and the state stand for the interpolated message.
\<close>

datatype error =
    CalledFromState string chipState
  | CompositeIsInactive
  | ReplacesNonChip string
  | DuplicateChildChipId
  | NoChipReturned
  | IncludeNeedsId
  | CannotFindChipToTerminate
  | CannotFindSignalForState string
  | CannotFindState string
  | UnknownEmitterType
  | TypeError string

definition ebind :: "error + 'a \<Rightarrow> ('a \<Rightarrow> error + 'b) \<Rightarrow> error + 'b" where
  "ebind r f = (case r of Inl e \<Rightarrow> Inl e | Inr x \<Rightarrow> f x)"

section \<open>Chip contexts\<close>

text \<open>
  \<open>ChipContext = Readonly<Record<string, any>>\<close>.  A context resolvable is either an
  object whose entries overload the previous ones, or a function from the old context
  to a new one (the source's type \<open>ChipContextFactory\<close>).
\<close>

type_synonym chipContext = "string \<rightharpoonup> val"

datatype chipContextResolvable =
    CtxObject chipContext
  | CtxFactory "chipContext \<Rightarrow> chipContext"

text \<open>
  \<open>processChipContext\<close> on the contents of the objects: the loop over
  \<open>alteredContexts\<close>, skipping \<open>undefined\<close> entries, calling functions and
  \<open>Object.assign({}, context, alteredContext)\<close> for objects.
\<close>

fun processChipContext ::
  "chipContext \<Rightarrow> chipContextResolvable option list \<Rightarrow> chipContext" where
  "processChipContext c [] = c"
| "processChipContext c (None # rest) = processChipContext c rest"
| "processChipContext c (Some (CtxFactory f) # rest) = processChipContext (f c) rest"
| "processChipContext c (Some (CtxObject m) # rest) = processChipContext (c ++ m) rest"

text \<open>
  The same loop with object identity made explicit, to speak about mutation.  The heap
  is the list of context objects allocated so far, an address is an index.  The local
  variable \<open>context\<close> holds an address: it starts as the address of the caller's
  object; \<open>Object.assign({}, ...)\<close> allocates a new object and writes only to it; the
  result of a factory is a new object as well.  The function returns the address held by
  \<open>context\<close> at the end.
\<close>

type_synonym ctxHeap = "chipContext list"

fun processChipContextHeap ::
  "ctxHeap \<Rightarrow> nat \<Rightarrow> chipContextResolvable option list \<Rightarrow> ctxHeap \<times> nat" where
  "processChipContextHeap h c [] = (h, c)"
| "processChipContextHeap h c (None # rest) = processChipContextHeap h c rest"
| "processChipContextHeap h c (Some (CtxFactory f) # rest) =
     processChipContextHeap (h @ [f (h ! c)]) (length h) rest"
| "processChipContextHeap h c (Some (CtxObject m) # rest) =
     processChipContextHeap (h @ [Map.empty ++ (h ! c) ++ m]) (length h) rest"

text \<open>
  An alteration leaves the key \<open>k\<close> as it is when it is \<open>undefined\<close> or an object
  without the key.  A function does not: it returns the whole context.
\<close>

fun leavesKey :: "string \<Rightarrow> chipContextResolvable option \<Rightarrow> bool" where
  "leavesKey k None = True"
| "leavesKey k (Some (CtxObject m)) = (m k = None)"
| "leavesKey k (Some (CtxFactory f)) = False"

section \<open>Event listeners of a chip\<close>

text \<open>
  \<open>IEventListener\<close>: the emitter and the callback are objects, compared by identity
  (\<open>!==\<close>), so the model names them: an emitter is the window, an object with
  \<open>on\<close>/\<open>once\<close>/\<open>off\<close> known by a number (a chip), or another object with neither
  \<open>on\<close> nor \<open>addEventListener\<close>; a callback is one of the closures the source
  creates, or a caller's function known by a number.
\<close>

datatype emitterRef = EmWindow | EmObject nat | EmOther nat

datatype callbackRef =
    CbResize
  | CbOnChildTerminated nat
  | CbDeleteAttribute string
  | CbSpliceAttribute string nat
  | CbDeleteFromChildContext string
  | CbFunction nat

datatype subscriptionHandler =
    NodeEventSourceSubscriptionHandler
  | EventTargetSubscriptionHandler

record eventListener =
  l_emitter :: emitterRef
  l_event :: string
  l_cb :: callbackRef
  l_subscriptionHandler :: subscriptionHandler

text \<open>
  \<open>fork\<close> of the radash library, which the source imports: the first list holds the
  items that pass the condition, the second those that fail it.
\<close>

definition fork :: "'a list \<Rightarrow> ('a \<Rightarrow> bool) \<Rightarrow> 'a list \<times> 'a list" where
  "fork xs condition = (filter condition xs, filter (\<lambda>x. \<not> condition x) xs)"

text \<open>
  The arrow function given to \<open>fork\<close> in \<open>_unsubscribe\<close>.  An argument that is not
  given is \<open>undefined\<close>; \<open>!event\<close> also holds for the empty string.
\<close>

definition unsubscribeCondition ::
  "emitterRef option \<Rightarrow> string option \<Rightarrow> callbackRef option \<Rightarrow> eventListener \<Rightarrow> bool" where
  "unsubscribeCondition emitter event cb listener \<longleftrightarrow>
     (emitter = None \<or> emitter \<noteq> Some (l_emitter listener)) \<and>
     (event = None \<or> event = Some [] \<or> event \<noteq> Some (l_event listener)) \<and>
     (cb = None \<or> cb \<noteq> Some (l_cb listener))"

text \<open>
  \<open>ChipBase._unsubscribe\<close> on the list \<open>_eventListeners\<close>: the pair of the listeners
  handed to \<open>subscriptionHandler.unsubscribe\<close> (the first component that the source
  binds to \<open>listenersToRemove\<close>) and the new value of \<open>_eventListeners\<close> (the second,
  \<open>listenersToKeep\<close>).
\<close>

definition unsubscribeListeners ::
  "emitterRef option \<Rightarrow> string option \<Rightarrow> callbackRef option \<Rightarrow> eventListener list
     \<Rightarrow> eventListener list \<times> eventListener list" where
  "unsubscribeListeners emitter event cb listeners =
     (case fork listeners (unsubscribeCondition emitter event cb) of
        (listenersToRemove, listenersToKeep) \<Rightarrow> (listenersToRemove, listenersToKeep))"

section \<open>Numbers\<close>

text \<open>
  A \<open>number\<close> of the source is an IEEE 754 double: \<open>Finite x\<close> is the double of
  value \<open>x\<close>, next to the two infinities and \<open>NaN\<close>.  (The sign of a zero does not
  show in \<open>+\<close> followed by \<open>>=\<close>, the only operations of the source on the numbers
  of the model, so there is one zero.)
\<close>

datatype number = Finite real | PlusInfinity | MinusInfinity | NaN

text \<open>The number of binary digits of a natural number.\<close>

fun bitLength :: "nat \<Rightarrow> nat" where
  "bitLength n = (if n = 0 then 0 else Suc (bitLength (n div 2)))"

declare bitLength.simps [simp del]

text \<open>
  For \<open>a > 0\<close>, the exponent \<open>e\<close> with \<open>2^e \<le> a < 2^(e+1)\<close>.
\<close>

definition binaryExponent :: "real \<Rightarrow> int" where
  "binaryExponent a =
     (if 1 \<le> a then int (bitLength (nat \<lfloor>a\<rfloor>)) - 1
      else - int (bitLength (nat (\<lceil>1 / a\<rceil> - 1))))"

definition pow2 :: "int \<Rightarrow> real" where
  "pow2 k = (if 0 \<le> k then 2 ^ nat k else 1 / 2 ^ nat (- k))"

definition roundHalfEven :: "real \<Rightarrow> int" where
  "roundHalfEven y =
     (let f = \<lfloor>y\<rfloor>; r = y - of_int f
      in if r < 1 / 2 then f else if 1 / 2 < r then f + 1 else if even f then f else f + 1)"

text \<open>
  Rounding of a real to the nearest double, ties to even: 53 significant binary
  digits, the spacing of the subnormal numbers (\<open>2^-1074\<close>) below \<open>2^-1022\<close>, and an
  infinity when the rounded magnitude reaches \<open>2^1024\<close>.
\<close>

definition roundToDouble :: "real \<Rightarrow> number" where
  "roundToDouble x =
     (if x = 0 then Finite 0
      else
        let a = \<bar>x\<bar>;
            q = pow2 (max (binaryExponent a - 52) (- 1074));
            r = of_int (roundHalfEven (a / q)) * q
        in if 2 ^ 1024 \<le> r then (if 0 < x then PlusInfinity else MinusInfinity)
           else Finite (if 0 < x then r else - r))"

text \<open>\<open>a + b\<close> and \<open>a >= b\<close> on numbers.\<close>

fun jsAdd :: "number \<Rightarrow> number \<Rightarrow> number" where
  "jsAdd (Finite x) (Finite y) = roundToDouble (x + y)"
| "jsAdd NaN b = NaN"
| "jsAdd a NaN = NaN"
| "jsAdd PlusInfinity MinusInfinity = NaN"
| "jsAdd MinusInfinity PlusInfinity = NaN"
| "jsAdd PlusInfinity b = PlusInfinity"
| "jsAdd a PlusInfinity = PlusInfinity"
| "jsAdd MinusInfinity b = MinusInfinity"
| "jsAdd a MinusInfinity = MinusInfinity"

fun jsGe :: "number \<Rightarrow> number \<Rightarrow> bool" where
  "jsGe (Finite x) (Finite y) = (y \<le> x)"
| "jsGe NaN b = False"
| "jsGe a NaN = False"
| "jsGe PlusInfinity b = True"
| "jsGe a MinusInfinity = True"
| "jsGe a PlusInfinity = False"
| "jsGe MinusInfinity b = False"

section \<open>The lifecycle of a chip: \<open>ChipBase\<close>\<close>

record tickInfo =
  timeSinceLastTick :: number

datatype mementoValue = MNum int | MSignals "signal list"

datatype reloadMemento =
  ReloadMemento (className: string)
    (mementoData: "(string \<times> mementoValue) list option")
    (mementoChildren: "(string \<times> reloadMemento) list")

text \<open>
  What a chip emits.  The imported \<open>EventEmitter\<close> is not part of the repository;
  the model keeps the trace of the \<open>emit\<close> calls of a chip in the field \<open>emitted\<close>,
  and the owner of a chip delivers the events of the trace to the callbacks it has
  subscribed (synchronously, in subscription order, a \<open>once\<close> callback a single time).
\<close>

datatype chipEvent =
    EvActivated "signal option"
  | EvTerminated "signal option"
  | EvResized
  | EvBeforeActivatedChildChip nat
  | EvActivatedChildChip nat
  | EvTerminatedChildChip nat
  | EvStateChange "signal option" signal

record registration =
  r_listener :: eventListener
  r_once :: bool

text \<open>
  The fields of \<open>ChipBase\<close>.  A field declared with \<open>!\<close> or \<open>?\<close> in the source is
  \<open>undefined\<close> until it is assigned, hence an option.  \<open>registered\<close> is the emitters'
  side of \<open>subscribe\<close>, \<open>subscribeOnce\<close> and \<open>unsubscribe\<close>: the callbacks of this chip
  that emitters currently hold.
\<close>

record chipBase =
  chipContext :: "chipContext option"
  lastTickInfo :: "tickInfo option"
  inputSignal :: "signal option"
  reloadMemento :: "reloadMemento option"
  eventListeners :: "eventListener list"
  outputSignal :: "signal option"
  state :: chipState
  registered :: "registration list"
  emitted :: "chipEvent list"

definition emit :: "chipEvent \<Rightarrow> 'z chipBase_scheme \<Rightarrow> 'z chipBase_scheme" where
  "emit ev c = c\<lparr>emitted := emitted c @ [ev]\<rparr>"

definition subscriptionHandlerFor :: "emitterRef \<Rightarrow> error + subscriptionHandler" where
  "subscriptionHandlerFor emitter =
     (case emitter of
        EmObject _ \<Rightarrow> Inr NodeEventSourceSubscriptionHandler
      | EmWindow \<Rightarrow> Inr EventTargetSubscriptionHandler
      | EmOther _ \<Rightarrow> Inl UnknownEmitterType)"

definition subscribeWith ::
  "bool \<Rightarrow> emitterRef \<Rightarrow> string \<Rightarrow> callbackRef \<Rightarrow> 'z chipBase_scheme
     \<Rightarrow> error + 'z chipBase_scheme" where
  "subscribeWith once emitter eventName cb c =
     ebind (subscriptionHandlerFor emitter) (\<lambda>handler.
       let listener = \<lparr>l_emitter = emitter, l_event = eventName, l_cb = cb,
                        l_subscriptionHandler = handler\<rparr>
       in Inr (c\<lparr>eventListeners := eventListeners c @ [listener],
                 registered := registered c @ [\<lparr>r_listener = listener, r_once = once\<rparr>]\<rparr>))"

definition subscribe ::
  "emitterRef \<Rightarrow> string \<Rightarrow> callbackRef \<Rightarrow> 'z chipBase_scheme \<Rightarrow> error + 'z chipBase_scheme" where
  "subscribe = subscribeWith False"

definition subscribeOnce ::
  "emitterRef \<Rightarrow> string \<Rightarrow> callbackRef \<Rightarrow> 'z chipBase_scheme \<Rightarrow> error + 'z chipBase_scheme" where
  "subscribeOnce = subscribeWith True"

definition unsubscribe ::
  "emitterRef option \<Rightarrow> string option \<Rightarrow> callbackRef option \<Rightarrow> 'z chipBase_scheme
     \<Rightarrow> 'z chipBase_scheme" where
  "unsubscribe emitter event cb c =
     (case unsubscribeListeners emitter event cb (eventListeners c) of
        (listenersToRemove, listenersToKeep) \<Rightarrow>
          c\<lparr>registered := filter (\<lambda>r. r_listener r \<notin> set listenersToRemove) (registered c),
            eventListeners := listenersToKeep\<rparr>)"

text \<open>\<open>resize()\<close>: the hook \<open>_onResize\<close> is a no-op in every class of the source.\<close>

definition resize :: "'z chipBase_scheme \<Rightarrow> 'z chipBase_scheme" where
  "resize c = emit EvResized c"

text \<open>
  \<open>ChipBase.activate\<close>, in two parts: the assignments up to the hook, and the whole
  method.  \<open>cname\<close> is \<open>this.constructor.name\<close> and \<open>onActivate\<close> the hook of the
  class.
\<close>

definition activateBegin ::
  "string \<Rightarrow> tickInfo \<Rightarrow> chipContext \<Rightarrow> signal option \<Rightarrow> reloadMemento option
     \<Rightarrow> 'z chipBase_scheme \<Rightarrow> 'z chipBase_scheme" where
  "activateBegin cname ti ctx inputSig memento c =
     c\<lparr>chipContext := Some ctx,
       lastTickInfo := Some ti,
       inputSignal := inputSig,
       state := Active,
       outputSignal := None,
       reloadMemento :=
         (case memento of
            None \<Rightarrow> None
          | Some m \<Rightarrow> if className m = cname then Some m else None)\<rparr>"

definition chipBase_activate ::
  "string \<Rightarrow> ('z chipBase_scheme \<Rightarrow> error + 'z chipBase_scheme)
     \<Rightarrow> tickInfo \<Rightarrow> chipContext \<Rightarrow> signal option \<Rightarrow> reloadMemento option
     \<Rightarrow> 'z chipBase_scheme \<Rightarrow> error + 'z chipBase_scheme" where
  "chipBase_activate cname onActivate ti ctx inputSig memento c =
     (if state c \<noteq> Inactive then Inl (CalledFromState ''activate'' (state c))
      else
        ebind (onActivate (activateBegin cname ti ctx inputSig memento c)) (\<lambda>c1.
        ebind (subscribe EmWindow ''resize'' CbResize c1) (\<lambda>c2.
        Inr (emit (EvActivated inputSig) (resize c2)))))"

definition chipBase_tick ::
  "('z chipBase_scheme \<Rightarrow> error + 'z chipBase_scheme) \<Rightarrow> tickInfo
     \<Rightarrow> 'z chipBase_scheme \<Rightarrow> error + 'z chipBase_scheme" where
  "chipBase_tick onTick ti c =
     (if state c = Paused then Inr c
      else if state c \<noteq> Active then Inl (CalledFromState ''tick'' (state c))
      else onTick (c\<lparr>lastTickInfo := Some ti\<rparr>))"

text \<open>
  \<open>ChipBase.terminate\<close>; a missing argument is \<open>new Signal()\<close>.
\<close>

definition chipBase_terminate ::
  "('z chipBase_scheme \<Rightarrow> error + 'z chipBase_scheme) \<Rightarrow> signal option
     \<Rightarrow> 'z chipBase_scheme \<Rightarrow> error + 'z chipBase_scheme" where
  "chipBase_terminate onTerminate outputSig c =
     (if state c \<noteq> Active \<and> state c \<noteq> Paused
      then Inl (CalledFromState ''terminate'' (state c))
      else
        ebind (onTerminate
                 (c\<lparr>outputSignal :=
                      Some (case outputSig of None \<Rightarrow> new_Signal None None | Some s \<Rightarrow> s)\<rparr>))
          (\<lambda>c1. let c2 = unsubscribe None None None c1;
                     c3 = c2\<lparr>state := Inactive\<rparr>
                 in Inr (emit (EvTerminated (outputSignal c3)) c3)))"

definition chipBase_pause ::
  "('z chipBase_scheme \<Rightarrow> error + 'z chipBase_scheme)
     \<Rightarrow> 'z chipBase_scheme \<Rightarrow> error + 'z chipBase_scheme" where
  "chipBase_pause onPause c =
     (if state c \<noteq> Active then Inl (CalledFromState ''pause'' (state c))
      else onPause (c\<lparr>state := Paused\<rparr>))"

definition chipBase_resume ::
  "('z chipBase_scheme \<Rightarrow> error + 'z chipBase_scheme)
     \<Rightarrow> 'z chipBase_scheme \<Rightarrow> error + 'z chipBase_scheme" where
  "chipBase_resume onResume c =
     (if state c \<noteq> Paused then Inl (CalledFromState ''resume'' (state c))
      else onResume (c\<lparr>state := Active\<rparr>))"

definition noHook :: "'a \<Rightarrow> error + 'a" where
  "noHook c = Inr c"

section \<open>The chips without children\<close>

text \<open>
  \<open>Forever\<close>, \<open>Transitory\<close>, \<open>Lambda\<close>, \<open>Wait\<close> and \<open>Block\<close> extend \<open>ChipBase\<close>
  and override hooks only.  A \<open>Lambda\<close> is given by what its function returns: nothing,
  a string or a signal.
\<close>

datatype lambdaResult = ReturnsNothing | ReturnsString string | ReturnsSignal signal

datatype leafKind =
    Forever
  | Transitory signal
  | Lambda lambdaResult
  | Wait number
  | Block

record leaf = chipBase +
  kind :: leafKind
  accumulatedTime :: "number option"

definition new_leaf :: "leafKind \<Rightarrow> leaf" where
  "new_leaf k =
     \<lparr> chipContext = None, lastTickInfo = None, inputSignal = None, reloadMemento = None,
       eventListeners = [], outputSignal = None, state = Inactive, registered = [],
       emitted = [], kind = k, accumulatedTime = None \<rparr>"

definition leafClassName :: "leafKind \<Rightarrow> string" where
  "leafClassName k =
     (case k of Forever \<Rightarrow> ''Forever'' | Transitory _ \<Rightarrow> ''Transitory''
      | Lambda _ \<Rightarrow> ''Lambda'' | Wait _ \<Rightarrow> ''Wait'' | Block \<Rightarrow> ''Block'')"

definition leaf_terminate :: "signal option \<Rightarrow> leaf \<Rightarrow> error + leaf" where
  "leaf_terminate = chipBase_terminate noHook"

definition leaf_onActivate :: "leaf \<Rightarrow> error + leaf" where
  "leaf_onActivate c =
     (case kind c of
        Transitory terminateSignal \<Rightarrow> leaf_terminate (Some terminateSignal) c
      | Lambda res \<Rightarrow>
          (case res of
             ReturnsString s \<Rightarrow> leaf_terminate (Some (new_Signal (Some s) None)) c
           | ReturnsSignal s \<Rightarrow> leaf_terminate (Some s) c
           | ReturnsNothing \<Rightarrow> leaf_terminate (Some (new_Signal None None)) c)
      | Wait _ \<Rightarrow> Inr (c\<lparr>accumulatedTime := Some (Finite 0)\<rparr>)
      | _ \<Rightarrow> Inr c)"

definition leaf_onTick :: "leaf \<Rightarrow> error + leaf" where
  "leaf_onTick c =
     (case kind c of
        Wait wait \<Rightarrow>
          (case (accumulatedTime c, lastTickInfo c) of
             (Some acc, Some ti) \<Rightarrow>
               let c1 = c\<lparr>accumulatedTime := Some (jsAdd acc (timeSinceLastTick ti))\<rparr>
               in if jsGe (jsAdd acc (timeSinceLastTick ti)) wait then leaf_terminate None c1
                  else Inr c1
           | _ \<Rightarrow> Inl (TypeError ''undefined''))
      | _ \<Rightarrow> Inr c)"

definition leaf_activate ::
  "tickInfo \<Rightarrow> chipContext \<Rightarrow> signal option \<Rightarrow> reloadMemento option \<Rightarrow> leaf \<Rightarrow> error + leaf" where
  "leaf_activate ti ctx inputSig memento c =
     chipBase_activate (leafClassName (kind c)) leaf_onActivate ti ctx inputSig memento c"

definition leaf_tick :: "tickInfo \<Rightarrow> leaf \<Rightarrow> error + leaf" where
  "leaf_tick = chipBase_tick leaf_onTick"

definition leaf_pause :: "leaf \<Rightarrow> error + leaf" where
  "leaf_pause = chipBase_pause noHook"

definition leaf_resume :: "leaf \<Rightarrow> error + leaf" where
  "leaf_resume = chipBase_resume noHook"




text \<open>
  A chip has completed an activation/termination cycle when it has emitted
  \<open>terminated\<close>, which is the last step of \<open>terminate\<close>.
\<close>

definition completedCycle :: "'z chipBase_scheme \<Rightarrow> bool" where
  "completedCycle c \<longleftrightarrow> (\<exists>s \<in> set (emitted c). case s of EvTerminated _ \<Rightarrow> True | _ \<Rightarrow> False)"

text \<open>
  The signal with which a chip terminates itself in its activation hook, if it does:
  \<open>Transitory\<close> and \<open>Lambda\<close> do, the others do not.
\<close>

definition signalOnActivation :: "leafKind \<Rightarrow> signal option" where
  "signalOnActivation k =
     (case k of
        Transitory s \<Rightarrow> Some s
      | Lambda (ReturnsString s) \<Rightarrow> Some (new_Signal (Some s) None)
      | Lambda (ReturnsSignal s) \<Rightarrow> Some s
      | Lambda ReturnsNothing \<Rightarrow> Some (new_Signal None None)
      | _ \<Rightarrow> None)"


section \<open>JavaScript objects used as records\<close>

text \<open>
  \<open>Number.prototype.toString\<close> on a natural number: its decimal digits.
\<close>

definition digitChar :: "nat \<Rightarrow> char" where
  "digitChar d = ''0123456789'' ! d"

function natToString :: "nat \<Rightarrow> string" where
  "natToString n = (if n < 10 then [digitChar n] else natToString (n div 10) @ [digitChar (n mod 10)])"
  by pat_completeness auto
termination
  by (relation "measure id") auto

declare natToString.simps [simp del]

definition isDigit :: "char \<Rightarrow> bool" where
  "isDigit ch \<longleftrightarrow> ch \<in> set ''0123456789''"

definition digitValue :: "char \<Rightarrow> nat" where
  "digitValue ch = length (takeWhile (\<lambda>x. x \<noteq> ch) ''0123456789'')"

definition digitsValue :: "string \<Rightarrow> nat" where
  "digitsValue s = foldl (\<lambda>n ch. 10 * n + digitValue ch) 0 s"

text \<open>
  The property order of a JavaScript object: the keys that are array indices (canonical
  decimal numerals below \<open>2^32 - 1\<close>) come first, in ascending order, then the other
  string keys in the order of their creation.  \<open>Object.values\<close>, \<open>Object.keys\<close>
  and \<open>for ... in\<close> follow it.  A record of the source is an association list kept
  in this order.
\<close>

definition isArrayIndex :: "string \<Rightarrow> bool" where
  "isArrayIndex s \<longleftrightarrow>
     s \<noteq> [] \<and> list_all isDigit s \<and> (s = ''0'' \<or> hd s \<noteq> CHR ''0'') \<and>
     digitsValue s < 4294967295"

fun insertIndexKey :: "string \<Rightarrow> 'a \<Rightarrow> (string \<times> 'a) list \<Rightarrow> (string \<times> 'a) list" where
  "insertIndexKey k v [] = [(k, v)]"
| "insertIndexKey k v ((k', v') # rest) =
     (if isArrayIndex k' \<and> digitsValue k' < digitsValue k
      then (k', v') # insertIndexKey k v rest
      else (k, v) # (k', v') # rest)"

definition recordHas :: "(string \<times> 'a) list \<Rightarrow> string \<Rightarrow> bool" where
  "recordHas r k \<longleftrightarrow> k \<in> fst ` set r"

definition recordSet :: "(string \<times> 'a) list \<Rightarrow> string \<Rightarrow> 'a \<Rightarrow> (string \<times> 'a) list" where
  "recordSet r k v =
     (if recordHas r k then map (\<lambda>(k', v'). if k' = k then (k', v) else (k', v')) r
      else if isArrayIndex k then insertIndexKey k v r
      else r @ [(k, v)])"

definition recordDelete :: "(string \<times> 'a) list \<Rightarrow> string \<Rightarrow> (string \<times> 'a) list" where
  "recordDelete r k = filter (\<lambda>(k', v'). k' \<noteq> k) r"

definition endsWithBrackets :: "string \<Rightarrow> bool" where
  "endsWithBrackets s \<longleftrightarrow> 2 \<le> length s \<and> drop (length s - 2) s = ''[]''"

section \<open>Composite chips\<close>

text \<open>
  A composite is written against the interface \<open>Chip\<close>: it calls \<open>activate\<close>,
  \<open>tick\<close>, \<open>terminate\<close>, \<open>pause\<close> and \<open>resume\<close> of its children and reads their
  \<open>state\<close> and \<open>outputSignal\<close>.  The model is polymorphic in the type \<open>'c\<close> of the
  children and takes their implementation of the interface as a record of functions.
\<close>

record 'c chipOps =
  op_activate :: "tickInfo \<Rightarrow> chipContext \<Rightarrow> signal option \<Rightarrow> reloadMemento option \<Rightarrow> 'c \<Rightarrow> error + 'c"
  op_tick :: "tickInfo \<Rightarrow> 'c \<Rightarrow> error + 'c"
  op_terminate :: "signal option \<Rightarrow> 'c \<Rightarrow> error + 'c"
  op_pause :: "'c \<Rightarrow> error + 'c"
  op_resume :: "'c \<Rightarrow> error + 'c"
  op_state :: "'c \<Rightarrow> chipState"
  op_outputSignal :: "'c \<Rightarrow> signal option"
  op_emitted :: "'c \<Rightarrow> chipEvent list"

text \<open>
  A composite holds references to chip objects in several fields at once (\<open>_childChips\<close>,
  \<open>_currentChip\<close>, the activation infos, attributes, the child context).  The model
  keeps the objects a composite refers to in a table, \<open>objects\<close>, and a reference is an
  index into the table.  A \<open>ChipResolvable\<close> is such a reference, or a factory; the chip
  a factory returns is a new object each time it is called.
\<close>

datatype 'c chipResolvable =
    ChipInstance nat
  | ChipFactory "chipContext \<Rightarrow> signal \<Rightarrow> 'c option"

record activateChildChipOptions =
  o_context :: "chipContextResolvable option"
  o_inputSignal :: "signal option"
  o_attribute :: "string option"
  o_includeInChildContext :: bool
  o_id :: "string option"
  o_reloadMemento :: "reloadMemento option"

record 'c chipActivationInfo = activateChildChipOptions +
  i_chip :: "'c chipResolvable"

definition noOptions :: activateChildChipOptions where
  "noOptions = \<lparr> o_context = None, o_inputSignal = None, o_attribute = None,
                  o_includeInChildContext = False, o_id = None, o_reloadMemento = None \<rparr>"

definition justChip :: "'c chipResolvable \<Rightarrow> 'c chipActivationInfo" where
  "justChip r = \<lparr> o_context = None, o_inputSignal = None, o_attribute = None,
                  o_includeInChildContext = False, o_id = None, o_reloadMemento = None,
                  i_chip = r \<rparr>"

text \<open>
  The attributes that \<open>_activateChildChip\<close> assigns on the composite itself
  (\<open>this[attributeName] = chip\<close>): a chip, or an array of chips.  Attribute names are
  taken not to be names of members of the class.
\<close>

datatype attributeValue = AttrChip nat | AttrArray "nat list"

text \<open>
  The fields of \<open>Composite\<close>.  \<open>_preparation\<close> is left out: no class of the source
  assigns it, so \<open>_isReady\<close> is set by \<open>activate\<close> and no preparation chip is started.
  \<open>Math.random()\<close> in the temporary child ids is a counter, so that the ids differ.
  Modelled from the spec: \<open>util.uniqueId\<close>, which is not in the source files, yields the
  synthetic id of an array group: the given prefix followed by a counter.
\<close>

record 'c composite = chipBase +
  childChipContext :: chipContext
  deferredOutputSignal :: "signal option"
  methodCallInProgress :: bool
  isReady :: bool
  childChips :: "(string \<times> nat) list"
  objects :: "'c list"
  attributes :: "(string \<times> attributeValue) list"
  randomCounter :: nat
  uniqueIdCounter :: nat

definition getObject :: "('c, 'z) composite_scheme \<Rightarrow> nat \<Rightarrow> error + 'c" where
  "getObject c a =
     (if a < length (objects c) then Inr (objects c ! a) else Inl (TypeError ''undefined''))"

definition eventName :: "chipEvent \<Rightarrow> string" where
  "eventName ev =
     (case ev of
        EvActivated _ \<Rightarrow> ''activated''
      | EvTerminated _ \<Rightarrow> ''terminated''
      | EvResized \<Rightarrow> ''resized''
      | EvBeforeActivatedChildChip _ \<Rightarrow> ''beforeActivatedChildChip''
      | EvActivatedChildChip _ \<Rightarrow> ''activatedChildChip''
      | EvTerminatedChildChip _ \<Rightarrow> ''terminatedChildChip''
      | EvStateChange _ _ \<Rightarrow> ''stateChange'')"

text \<open>
  Delivery of the events of a child to the callbacks the composite has registered on it.
  \<open>cb\<close> runs a callback of the class on the composite.
\<close>

fun deliverTo ::
  "(callbackRef \<Rightarrow> 'z chipBase_scheme \<Rightarrow> error + 'z chipBase_scheme) \<Rightarrow> registration list
     \<Rightarrow> 'z chipBase_scheme \<Rightarrow> error + 'z chipBase_scheme" where
  "deliverTo cb [] c = Inr c"
| "deliverTo cb (r # rs) c =
     ebind (cb (l_cb (r_listener r))
              (if r_once r then c\<lparr>registered := remove1 r (registered c)\<rparr> else c))
       (deliverTo cb rs)"

definition deliverEvent ::
  "(callbackRef \<Rightarrow> 'z chipBase_scheme \<Rightarrow> error + 'z chipBase_scheme) \<Rightarrow> nat \<Rightarrow> chipEvent
     \<Rightarrow> 'z chipBase_scheme \<Rightarrow> error + 'z chipBase_scheme" where
  "deliverEvent cb a ev c =
     deliverTo cb
       (filter (\<lambda>r. l_emitter (r_listener r) = EmObject a \<and> l_event (r_listener r) = eventName ev)
          (registered c)) c"

fun deliverEvents ::
  "(callbackRef \<Rightarrow> 'z chipBase_scheme \<Rightarrow> error + 'z chipBase_scheme) \<Rightarrow> nat \<Rightarrow> chipEvent list
     \<Rightarrow> 'z chipBase_scheme \<Rightarrow> error + 'z chipBase_scheme" where
  "deliverEvents cb a [] c = Inr c"
| "deliverEvents cb a (ev # evs) c = ebind (deliverEvent cb a ev c) (deliverEvents cb a evs)"

text \<open>
  A call of a method \<open>f\<close> of the child at address \<open>a\<close>: the child changes, and what it
  emitted during the call reaches the callbacks of the composite.  (A child emits
  \<open>terminated\<close> as the last step of its termination, and the callbacks change the
  composite only, so running them when the call returns gives the state that running
  them inside the call gives.)
\<close>

definition callChild ::
  "'c chipOps \<Rightarrow> (callbackRef \<Rightarrow> ('c, 'z) composite_scheme \<Rightarrow> error + ('c, 'z) composite_scheme)
     \<Rightarrow> nat \<Rightarrow> ('c \<Rightarrow> error + 'c)
     \<Rightarrow> ('c, 'z) composite_scheme \<Rightarrow> error + ('c, 'z) composite_scheme" where
  "callChild ops cb a f c =
     ebind (getObject c a) (\<lambda>child.
     ebind (f child) (\<lambda>child'.
       deliverEvents cb a
         (drop (length (op_emitted ops child)) (op_emitted ops child'))
         (c\<lparr>objects := (objects c)[a := child']\<rparr>)))"

text \<open>The closures that \<open>Composite\<close> itself subscribes.\<close>

definition spliceOut :: "nat list \<Rightarrow> nat \<Rightarrow> nat list" where
  "spliceOut l a =
     (if a \<in> set l then takeWhile (\<lambda>x. x \<noteq> a) l @ tl (dropWhile (\<lambda>x. x \<noteq> a) l)
      else butlast l)"

definition compositeCallback ::
  "callbackRef \<Rightarrow> ('c, 'z) composite_scheme \<Rightarrow> error + ('c, 'z) composite_scheme" where
  "compositeCallback ref c =
     (case ref of
        CbDeleteAttribute n \<Rightarrow> Inr (c\<lparr>attributes := recordDelete (attributes c) n\<rparr>)
      | CbSpliceAttribute n a \<Rightarrow>
          (case map_of (attributes c) n of
             Some (AttrArray l) \<Rightarrow>
               Inr (c\<lparr>attributes := recordSet (attributes c) n (AttrArray (spliceOut l a))\<rparr>)
           | _ \<Rightarrow> Inl (TypeError ''indexOf''))
      | CbDeleteFromChildContext i \<Rightarrow> Inr (c\<lparr>childChipContext := (childChipContext c)(i := None)\<rparr>)
      | CbResize \<Rightarrow> Inr (resize c)
      | _ \<Rightarrow> Inr c)"

definition truthy :: "string option \<Rightarrow> bool" where
  "truthy s \<longleftrightarrow> (case s of None \<Rightarrow> False | Some x \<Rightarrow> x \<noteq> [])"

text \<open>
  \<open>resolveChip\<close>: an instance is returned as it is; a factory is called with the context
  and \<open>new Signal()\<close>, and the chip it returns is a new object of the table.
\<close>

definition resolveChip ::
  "'c chipResolvable \<Rightarrow> chipContext \<Rightarrow> ('c, 'z) composite_scheme
     \<Rightarrow> (('c, 'z) composite_scheme \<times> nat) option" where
  "resolveChip resolvable ctx c =
     (case resolvable of
        ChipInstance a \<Rightarrow> Some (c, a)
      | ChipFactory f \<Rightarrow>
          (case f ctx (new_Signal None None) of
             None \<Rightarrow> None
           | Some chip \<Rightarrow> Some (c\<lparr>objects := objects c @ [chip]\<rparr>, length (objects c))))"

text \<open>\<open>Composite._terminateChildChip\<close>.\<close>

definition terminateChildChip ::
  "'c chipOps \<Rightarrow> (callbackRef \<Rightarrow> ('c, 'z) composite_scheme \<Rightarrow> error + ('c, 'z) composite_scheme)
     \<Rightarrow> nat \<Rightarrow> signal option
     \<Rightarrow> ('c, 'z) composite_scheme \<Rightarrow> error + ('c, 'z) composite_scheme" where
  "terminateChildChip ops cb chip outputSig c =
     (if state c = Inactive then Inl CompositeIsInactive
      else
        (case find (\<lambda>(i, a). a = chip) (childChips c) of
           None \<Rightarrow> Inl CannotFindChipToTerminate
         | Some (childId, _) \<Rightarrow>
             if childId = [] then Inl CannotFindChipToTerminate
             else
               ebind (callChild ops cb chip (op_terminate ops outputSig) c) (\<lambda>c1.
                 Inr (emit (EvTerminatedChildChip chip)
                        (c1\<lparr>childChips := recordDelete (childChips c1) childId\<rparr>)))))"

text \<open>
  \<open>Composite._activateChildChip\<close>, in the order of the source: the guard; the
  replacement of a chip held by the attribute; the id; the input signal and the context
  of the child; the resolution of the chip; its memento; its registration under the id
  and the attribute; its activation; its entry in the child context.
\<close>

definition replaceAttribute ::
  "'c chipOps \<Rightarrow> (callbackRef \<Rightarrow> ('c, 'z) composite_scheme \<Rightarrow> error + ('c, 'z) composite_scheme)
     \<Rightarrow> 'y activateChildChipOptions_scheme
     \<Rightarrow> ('c, 'z) composite_scheme \<Rightarrow> error + ('c, 'z) composite_scheme" where
  "replaceAttribute ops cb options c =
     (case o_attribute options of
        None \<Rightarrow> Inr c
      | Some attr \<Rightarrow>
          if attr \<noteq> [] \<and> \<not> endsWithBrackets attr then
            (case map_of (attributes c) attr of
               None \<Rightarrow> Inr c
             | Some (AttrChip a) \<Rightarrow> terminateChildChip ops cb a None c
             | Some (AttrArray _) \<Rightarrow> Inl (ReplacesNonChip attr))
          else Inr c)"

definition provideId ::
  "'y activateChildChipOptions_scheme \<Rightarrow> ('c, 'z) composite_scheme
     \<Rightarrow> error + (('c, 'z) composite_scheme \<times> string option)" where
  "provideId options c =
     (let providedId = (case o_id options of Some i \<Rightarrow> Some i | None \<Rightarrow> o_attribute options)
      in case providedId of
           None \<Rightarrow> Inr (c, None)
         | Some i \<Rightarrow>
             if i = [] then Inr (c, Some i)
             else
               let (c1, i1) =
                     (if endsWithBrackets i
                      then (c\<lparr>uniqueIdCounter := Suc (uniqueIdCounter c)\<rparr>,
                            i @ natToString (uniqueIdCounter c))
                      else (c, i))
               in if recordHas (childChips c1) i1 then Inl DuplicateChildChipId
                  else Inr (c1, Some i1))"

definition bindAttribute ::
  "'y activateChildChipOptions_scheme \<Rightarrow> nat
     \<Rightarrow> ('c, 'z) composite_scheme \<Rightarrow> error + ('c, 'z) composite_scheme" where
  "bindAttribute options chip c =
     (case o_attribute options of
        None \<Rightarrow> Inr c
      | Some attr \<Rightarrow>
          if attr = [] then Inr c
          else if endsWithBrackets attr then
            (let attributeName = take (length attr - 2) attr
             in case map_of (attributes c) attributeName of
                  Some (AttrChip _) \<Rightarrow> Inl (TypeError ''push'')
                | Some (AttrArray l) \<Rightarrow>
                    subscribeOnce (EmObject chip) ''terminated'' (CbSpliceAttribute attributeName chip)
                      (c\<lparr>attributes := recordSet (attributes c) attributeName (AttrArray (l @ [chip]))\<rparr>)
                | None \<Rightarrow>
                    subscribeOnce (EmObject chip) ''terminated'' (CbSpliceAttribute attributeName chip)
                      (c\<lparr>attributes := recordSet (attributes c) attributeName (AttrArray [chip])\<rparr>))
          else
            subscribeOnce (EmObject chip) ''terminated'' (CbDeleteAttribute attr)
              (c\<lparr>attributes := recordSet (attributes c) attr (AttrChip chip)\<rparr>))"

definition includeInContext ::
  "'y activateChildChipOptions_scheme \<Rightarrow> string option \<Rightarrow> nat
     \<Rightarrow> ('c, 'z) composite_scheme \<Rightarrow> error + ('c, 'z) composite_scheme" where
  "includeInContext options providedId chip c =
     (if o_includeInChildContext options then
        (case providedId of
           None \<Rightarrow> Inl IncludeNeedsId
         | Some i \<Rightarrow>
             if i = [] then Inl IncludeNeedsId
             else
               subscribeOnce (EmObject chip) ''terminated'' (CbDeleteFromChildContext i)
                 (c\<lparr>childChipContext := (childChipContext c)(i \<mapsto> VChip chip)\<rparr>))
      else Inr c)"

definition activateChildChip ::
  "'c chipOps \<Rightarrow> (callbackRef \<Rightarrow> ('c, 'z) composite_scheme \<Rightarrow> error + ('c, 'z) composite_scheme)
     \<Rightarrow> 'c chipResolvable \<Rightarrow> 'y activateChildChipOptions_scheme
     \<Rightarrow> ('c, 'z) composite_scheme \<Rightarrow> error + (('c, 'z) composite_scheme \<times> nat)" where
  "activateChildChip ops cb chipResolvable options c =
     (if state c = Inactive then Inl CompositeIsInactive
      else
        ebind (replaceAttribute ops cb options c) (\<lambda>c1.
        ebind (provideId options c1) (\<lambda>(c2, providedId).
          let inputSig = (case o_inputSignal options of
                            None \<Rightarrow> new_Signal None None | Some s \<Rightarrow> s);
              childContext =
                processChipContext
                  (case chipContext c2 of None \<Rightarrow> Map.empty | Some x \<Rightarrow> x)
                  [Some (CtxObject (childChipContext c2)), None, o_context options]
          in case resolveChip chipResolvable childContext c2 of
               None \<Rightarrow> Inl NoChipReturned
             | Some (c3, chip) \<Rightarrow>
                 let memento =
                       (case (providedId, reloadMemento c3) of
                          (Some i, Some m) \<Rightarrow>
                            if i = [] then None else map_of (mementoChildren m) i
                        | _ \<Rightarrow> None);
                     (c4, childId) =
                       (case providedId of
                          Some i \<Rightarrow> (c3, i)
                        | None \<Rightarrow> (c3\<lparr>randomCounter := Suc (randomCounter c3)\<rparr>,
                                   ''unknown_'' @ natToString (randomCounter c3)));
                     c5 = c4\<lparr>childChips := recordSet (childChips c4) childId chip\<rparr>
                 in ebind (bindAttribute options chip c5) (\<lambda>c6.
                    case lastTickInfo c6 of
                      None \<Rightarrow> Inl (TypeError ''undefined'')
                    | Some ti \<Rightarrow>
                        ebind (callChild ops cb chip
                                 (op_activate ops ti childContext (Some inputSig) memento)
                                 (emit (EvBeforeActivatedChildChip chip) c6)) (\<lambda>c7.
                        ebind (includeInContext options providedId chip c7) (\<lambda>c8.
                          Inr (emit (EvActivatedChildChip chip) c8, chip)))))))"

text \<open>
  \<open>_tickChildChips\<close>, \<open>_terminateAllChildChips\<close> and \<open>_removeTerminatedChildChips\<close>.
  The loops of the first two run over \<open>Object.values(this._childChips)\<close>, taken when the
  loop starts; the state of a child is read when its turn comes.
\<close>

fun removeTerminatedLoop ::
  "'c chipOps \<Rightarrow> (string \<times> nat) list \<Rightarrow> ('c, 'z) composite_scheme \<Rightarrow> ('c, 'z) composite_scheme" where
  "removeTerminatedLoop ops [] c = c"
| "removeTerminatedLoop ops ((i, a) # rest) c =
     (case getObject c a of
        Inr childChip \<Rightarrow>
          if op_state ops childChip = Inactive
          then removeTerminatedLoop ops rest
                 (emit (EvTerminatedChildChip a) (c\<lparr>childChips := recordDelete (childChips c) i\<rparr>))
          else removeTerminatedLoop ops rest c
      | Inl _ \<Rightarrow> removeTerminatedLoop ops rest c)"

definition removeTerminatedChildChips ::
  "'c chipOps \<Rightarrow> ('c, 'z) composite_scheme \<Rightarrow> ('c, 'z) composite_scheme" where
  "removeTerminatedChildChips ops c = removeTerminatedLoop ops (childChips c) c"

fun tickLoop ::
  "'c chipOps \<Rightarrow> (callbackRef \<Rightarrow> ('c, 'z) composite_scheme \<Rightarrow> error + ('c, 'z) composite_scheme)
     \<Rightarrow> nat list \<Rightarrow> ('c, 'z) composite_scheme \<Rightarrow> error + ('c, 'z) composite_scheme" where
  "tickLoop ops cb [] c = Inr c"
| "tickLoop ops cb (a # rest) c =
     ebind (getObject c a) (\<lambda>childChip.
       if op_state ops childChip \<noteq> Inactive then
         (case lastTickInfo c of
            None \<Rightarrow> Inl (TypeError ''undefined'')
          | Some ti \<Rightarrow> ebind (callChild ops cb a (op_tick ops ti) c) (tickLoop ops cb rest))
       else tickLoop ops cb rest c)"

definition tickChildChips ::
  "'c chipOps \<Rightarrow> (callbackRef \<Rightarrow> ('c, 'z) composite_scheme \<Rightarrow> error + ('c, 'z) composite_scheme)
     \<Rightarrow> ('c, 'z) composite_scheme \<Rightarrow> error + ('c, 'z) composite_scheme" where
  "tickChildChips ops cb c =
     ebind (tickLoop ops cb (map snd (childChips c)) c) (\<lambda>c1.
       Inr (removeTerminatedChildChips ops c1))"

fun terminateLoop ::
  "'c chipOps \<Rightarrow> (callbackRef \<Rightarrow> ('c, 'z) composite_scheme \<Rightarrow> error + ('c, 'z) composite_scheme)
     \<Rightarrow> signal option \<Rightarrow> nat list
     \<Rightarrow> ('c, 'z) composite_scheme \<Rightarrow> error + ('c, 'z) composite_scheme" where
  "terminateLoop ops cb outputSig [] c = Inr c"
| "terminateLoop ops cb outputSig (a # rest) c =
     ebind (getObject c a) (\<lambda>childChip.
     ebind (if op_state ops childChip = Active \<or> op_state ops childChip = Paused
            then callChild ops cb a (op_terminate ops outputSig) c
            else Inr c) (\<lambda>c1.
       terminateLoop ops cb outputSig rest (emit (EvTerminatedChildChip a) c1)))"

definition terminateAllChildChips ::
  "'c chipOps \<Rightarrow> (callbackRef \<Rightarrow> ('c, 'z) composite_scheme \<Rightarrow> error + ('c, 'z) composite_scheme)
     \<Rightarrow> signal option
     \<Rightarrow> ('c, 'z) composite_scheme \<Rightarrow> error + ('c, 'z) composite_scheme" where
  "terminateAllChildChips ops cb outputSig c =
     ebind (terminateLoop ops cb outputSig (map snd (childChips c)) c) (\<lambda>c1.
       Inr (c1\<lparr>childChips := []\<rparr>))"

text \<open>
  \<open>Composite.terminate\<close>.  While \<open>_methodCallInProgress\<close> is set the signal is stored
  and nothing else happens.  Otherwise the composite becomes inactive, unsubscribes,
  terminates its children, stores the signal, runs its hook and emits \<open>terminated\<close>.
\<close>

definition composite_terminate ::
  "'c chipOps \<Rightarrow> (callbackRef \<Rightarrow> ('c, 'z) composite_scheme \<Rightarrow> error + ('c, 'z) composite_scheme)
     \<Rightarrow> (('c, 'z) composite_scheme \<Rightarrow> error + ('c, 'z) composite_scheme)
     \<Rightarrow> signal option
     \<Rightarrow> ('c, 'z) composite_scheme \<Rightarrow> error + ('c, 'z) composite_scheme" where
  "composite_terminate ops cb onTerminate outputSig c =
     (if state c \<noteq> Active \<and> state c \<noteq> Paused
      then Inl (CalledFromState ''terminate'' (state c))
      else
        let outputSignal1 = (case outputSig of None \<Rightarrow> new_Signal None None | Some s \<Rightarrow> s)
        in if methodCallInProgress c
           then Inr (c\<lparr>deferredOutputSignal := Some outputSignal1\<rparr>)
           else
             ebind (terminateAllChildChips ops cb None
                      (unsubscribe None None None (c\<lparr>state := Inactive, isReady := False\<rparr>)))
               (\<lambda>c1.
             ebind (onTerminate (c1\<lparr>outputSignal := Some outputSignal1\<rparr>)) (\<lambda>c2.
               Inr (emit (EvTerminated (outputSignal c2)) c2))))"

text \<open>
  \<open>Composite.activate\<close>: the flag is set around \<open>super.activate\<close>, which runs the hook
  \<open>_onActivate\<close>.
\<close>

definition composite_activate ::
  "string \<Rightarrow> (('c, 'z) composite_scheme \<Rightarrow> error + ('c, 'z) composite_scheme)
     \<Rightarrow> tickInfo \<Rightarrow> chipContext \<Rightarrow> signal option \<Rightarrow> reloadMemento option
     \<Rightarrow> ('c, 'z) composite_scheme \<Rightarrow> error + ('c, 'z) composite_scheme" where
  "composite_activate cname onActivate ti ctx inputSig memento c =
     ebind (chipBase_activate cname onActivate ti ctx inputSig memento
              (c\<lparr>childChips := [], childChipContext := Map.empty, methodCallInProgress := True\<rparr>))
       (\<lambda>c1. Inr (c1\<lparr>methodCallInProgress := False, isReady := True\<rparr>))"

text \<open>
  \<open>Composite.tick\<close>: a stored signal terminates the composite before anything else;
  otherwise the hook \<open>_onTick\<close> runs, then the children are ticked with the flag set, then
  the hook \<open>_onAfterTick\<close> runs.
\<close>

definition composite_tick ::
  "'c chipOps \<Rightarrow> (callbackRef \<Rightarrow> ('c, 'z) composite_scheme \<Rightarrow> error + ('c, 'z) composite_scheme)
     \<Rightarrow> (('c, 'z) composite_scheme \<Rightarrow> error + ('c, 'z) composite_scheme)
     \<Rightarrow> (('c, 'z) composite_scheme \<Rightarrow> error + ('c, 'z) composite_scheme)
     \<Rightarrow> (('c, 'z) composite_scheme \<Rightarrow> error + ('c, 'z) composite_scheme)
     \<Rightarrow> tickInfo
     \<Rightarrow> ('c, 'z) composite_scheme \<Rightarrow> error + ('c, 'z) composite_scheme" where
  "composite_tick ops cb onTerminate onTick onAfterTick ti c =
     (if state c = Paused then Inr c
      else if state c \<noteq> Active then Inl (CalledFromState ''tick'' (state c))
      else
        (case deferredOutputSignal c of
           Some s \<Rightarrow> composite_terminate ops cb onTerminate (Some s) c
         | None \<Rightarrow>
             ebind (onTick (c\<lparr>lastTickInfo := Some ti\<rparr>)) (\<lambda>c1.
             ebind (tickChildChips ops cb (c1\<lparr>methodCallInProgress := True\<rparr>)) (\<lambda>c2.
               onAfterTick (c2\<lparr>methodCallInProgress := False\<rparr>)))))"

fun pauseLoop ::
  "'c chipOps \<Rightarrow> (callbackRef \<Rightarrow> ('c, 'z) composite_scheme \<Rightarrow> error + ('c, 'z) composite_scheme)
     \<Rightarrow> ('c \<Rightarrow> error + 'c) \<Rightarrow> nat list
     \<Rightarrow> ('c, 'z) composite_scheme \<Rightarrow> error + ('c, 'z) composite_scheme" where
  "pauseLoop ops cb f [] c = Inr c"
| "pauseLoop ops cb f (a # rest) c = ebind (callChild ops cb a f c) (pauseLoop ops cb f rest)"

definition composite_pause ::
  "'c chipOps \<Rightarrow> (callbackRef \<Rightarrow> ('c, 'z) composite_scheme \<Rightarrow> error + ('c, 'z) composite_scheme)
     \<Rightarrow> (('c, 'z) composite_scheme \<Rightarrow> error + ('c, 'z) composite_scheme)
     \<Rightarrow> ('c, 'z) composite_scheme \<Rightarrow> error + ('c, 'z) composite_scheme" where
  "composite_pause ops cb onPause c =
     ebind (chipBase_pause onPause c) (\<lambda>c1.
       let c2 = removeTerminatedChildChips ops c1
       in pauseLoop ops cb (op_pause ops) (map snd (childChips c2)) c2)"


text \<open>
  Two notions to speak about the callbacks that a composite runs for the events of its
  children.  \<open>onlyInProgress cb\<close> is the callback \<open>cb\<close> made to fail when it
  runs while \<open>_methodCallInProgress\<close> is not set.  \<open>keepsInProgress cb\<close>: the
  callback does not clear the flag (in the source only \<open>activate\<close> and \<open>tick\<close> of
  the composite itself assign it).
\<close>

definition onlyInProgress ::
  "(callbackRef \<Rightarrow> ('c, 'z) composite_scheme \<Rightarrow> error + ('c, 'z) composite_scheme)
     \<Rightarrow> callbackRef \<Rightarrow> ('c, 'z) composite_scheme \<Rightarrow> error + ('c, 'z) composite_scheme" where
  "onlyInProgress cb ref c =
     (if methodCallInProgress c then cb ref c else Inl (TypeError ''not in progress''))"

definition keepsInProgress ::
  "(callbackRef \<Rightarrow> ('c, 'z) composite_scheme \<Rightarrow> error + ('c, 'z) composite_scheme) \<Rightarrow> bool" where
  "keepsInProgress cb \<longleftrightarrow>
     (\<forall>ref x x'. methodCallInProgress x \<and> cb ref x = Inr x' \<longrightarrow> methodCallInProgress x')"

section \<open>Constructing composites\<close>

text \<open>
  The argument of a constructor is a list of chips, factories or activation infos.  A
  chip given to a constructor becomes an object of the table of the composite; an entry
  that is a bare chip or factory is an info with no option set.
\<close>

datatype 'c chipSpec =
    SpecChip 'c
  | SpecFactory "chipContext \<Rightarrow> signal \<Rightarrow> 'c option"

definition allocSpec :: "'c list \<Rightarrow> 'c chipSpec \<Rightarrow> 'c list \<times> 'c chipResolvable" where
  "allocSpec objs spec =
     (case spec of
        SpecChip chip \<Rightarrow> (objs @ [chip], ChipInstance (length objs))
      | SpecFactory f \<Rightarrow> (objs, ChipFactory f))"

fun allocInfos ::
  "'c list \<Rightarrow> (activateChildChipOptions \<times> 'c chipSpec) list
     \<Rightarrow> 'c list \<times> 'c chipActivationInfo list" where
  "allocInfos objs [] = (objs, [])"
| "allocInfos objs ((options, spec) # rest) =
     (case allocSpec objs spec of
        (objs1, r) \<Rightarrow>
          (case allocInfos objs1 rest of
             (objs2, infos) \<Rightarrow>
               (objs2,
                \<lparr> o_context = o_context options, o_inputSignal = o_inputSignal options,
                  o_attribute = o_attribute options,
                  o_includeInChildContext = o_includeInChildContext options,
                  o_id = o_id options, o_reloadMemento = o_reloadMemento options,
                  i_chip = r \<rparr> # infos)))"

definition bare :: "'c chipSpec \<Rightarrow> activateChildChipOptions \<times> 'c chipSpec" where
  "bare spec = (noOptions, spec)"

section \<open>Parallel\<close>

record 'c parallel = "'c composite" +
  p_terminateOnCompletion :: bool
  p_chipActivationInfos :: "'c chipActivationInfo list"
  p_infoToChip :: "(nat \<times> nat) list"
  p_activatedChipCount :: nat

text \<open>
  \<open>new Parallel(chipActivationInfos, options)\<close>; \<open>terminateOnCompletion\<close> is \<open>true\<close>
  when the option is not given.  In the constructor the chip is inactive, so
  \<open>addChildChip\<close> only records the infos.
\<close>

definition new_Parallel ::
  "(activateChildChipOptions \<times> 'c chipSpec) list \<Rightarrow> bool option \<Rightarrow> 'c parallel" where
  "new_Parallel specs terminateOnCompletion =
     (case allocInfos [] specs of
        (objs, infos) \<Rightarrow>
          \<lparr> chipContext = None, lastTickInfo = None, inputSignal = None, reloadMemento = None,
            eventListeners = [], outputSignal = None, state = Inactive, registered = [],
            emitted = [],
            childChipContext = Map.empty, deferredOutputSignal = None,
            methodCallInProgress = False, isReady = False, childChips = [],
            objects = objs, attributes = [], randomCounter = 0, uniqueIdCounter = 0,
            p_terminateOnCompletion =
              (case terminateOnCompletion of None \<Rightarrow> True | Some b \<Rightarrow> b),
            p_chipActivationInfos = infos, p_infoToChip = [], p_activatedChipCount = 0 \<rparr>)"

definition parallel_terminate ::
  "'c chipOps \<Rightarrow> signal option \<Rightarrow> ('c, 'z) parallel_scheme \<Rightarrow> error + ('c, 'z) parallel_scheme" where
  "parallel_terminate ops = composite_terminate ops compositeCallback noHook"

text \<open>
  The body shared by \<open>addChildChip\<close> (on a running chip) and the loop of
  \<open>_onActivate\<close>: a default id, the activation, the map entry, the counter.
\<close>

definition parallel_activateInfo ::
  "'c chipOps \<Rightarrow> 'c chipActivationInfo
     \<Rightarrow> ('c, 'z) parallel_scheme \<Rightarrow> error + ('c, 'z) parallel_scheme" where
  "parallel_activateInfo ops info c =
     (let infoWithId =
            (if truthy (o_attribute info) \<or> truthy (o_id info) then info
             else info\<lparr>o_id := Some (natToString (p_activatedChipCount c))\<rparr>)
      in ebind (activateChildChip ops compositeCallback (i_chip info) infoWithId c) (\<lambda>(c1, chip).
           Inr (c1\<lparr>p_infoToChip := p_infoToChip c1 @ [(p_activatedChipCount c1, chip)],
                   p_activatedChipCount := Suc (p_activatedChipCount c1)\<rparr>)))"

fun parallel_activateAll ::
  "'c chipOps \<Rightarrow> 'c chipActivationInfo list
     \<Rightarrow> ('c, 'z) parallel_scheme \<Rightarrow> error + ('c, 'z) parallel_scheme" where
  "parallel_activateAll ops [] c = Inr c"
| "parallel_activateAll ops (info # rest) c =
     ebind (parallel_activateInfo ops info c) (parallel_activateAll ops rest)"

definition parallel_onActivate ::
  "'c chipOps \<Rightarrow> ('c, 'z) parallel_scheme \<Rightarrow> error + ('c, 'z) parallel_scheme" where
  "parallel_onActivate ops c =
     (if length (p_chipActivationInfos c) = 0 then
        (if p_terminateOnCompletion c then parallel_terminate ops (Some (new_Signal None None)) c
         else Inr c)
      else parallel_activateAll ops (p_chipActivationInfos c) c)"

definition parallel_onAfterTick ::
  "'c chipOps \<Rightarrow> ('c, 'z) parallel_scheme \<Rightarrow> error + ('c, 'z) parallel_scheme" where
  "parallel_onAfterTick ops c =
     (if length (childChips c) = 0 \<and> p_terminateOnCompletion c
      then parallel_terminate ops (Some (new_Signal None None)) c
      else Inr c)"

definition parallel_activate ::
  "'c chipOps \<Rightarrow> tickInfo \<Rightarrow> chipContext \<Rightarrow> signal option \<Rightarrow> reloadMemento option
     \<Rightarrow> ('c, 'z) parallel_scheme \<Rightarrow> error + ('c, 'z) parallel_scheme" where
  "parallel_activate ops = composite_activate ''Parallel'' (parallel_onActivate ops)"

definition parallel_tick ::
  "'c chipOps \<Rightarrow> tickInfo \<Rightarrow> ('c, 'z) parallel_scheme \<Rightarrow> error + ('c, 'z) parallel_scheme" where
  "parallel_tick ops = composite_tick ops compositeCallback noHook noHook (parallel_onAfterTick ops)"

definition parallel_pause ::
  "'c chipOps \<Rightarrow> ('c, 'z) parallel_scheme \<Rightarrow> error + ('c, 'z) parallel_scheme" where
  "parallel_pause ops = composite_pause ops compositeCallback noHook"

definition parallel_addChildChip ::
  "'c chipOps \<Rightarrow> activateChildChipOptions \<times> 'c chipSpec
     \<Rightarrow> ('c, 'z) parallel_scheme \<Rightarrow> error + ('c, 'z) parallel_scheme" where
  "parallel_addChildChip ops e c =
     (case allocInfos (objects c) [e] of
        (objs, infos) \<Rightarrow>
          let c1 = c\<lparr>objects := objs, p_chipActivationInfos := p_chipActivationInfos c @ infos\<rparr>
          in if state c1 \<noteq> Inactive then parallel_activateAll ops infos c1 else Inr c1)"

text \<open>The chips without children as children: their implementation of the interface.\<close>

definition leafOps :: "leaf chipOps" where
  "leafOps =
     \<lparr> op_activate = leaf_activate, op_tick = leaf_tick, op_terminate = leaf_terminate,
       op_pause = leaf_pause, op_resume = leaf_resume, op_state = state,
       op_outputSignal = outputSignal, op_emitted = emitted \<rparr>"

text \<open>
  A \<open>Parallel\<close> over one \<open>Forever\<close> chip, activated and then paused.
\<close>

definition pausedParallel :: "error + leaf parallel" where
  "pausedParallel =
     ebind (parallel_activate leafOps \<lparr>timeSinceLastTick = Finite 0\<rparr> Map.empty None None
              (new_Parallel [bare (SpecChip (new_leaf Forever))] None))
       (parallel_pause leafOps)"

section \<open>Alternative\<close>

text \<open>
  \<open>AlternativeChipActivationInfo\<close> adds an optional outcome signal to an activation
  info.
\<close>

record 'c alternativeChipActivationInfo = "'c chipActivationInfo" +
  i_signal :: "signal option"

record 'c alternative = "'c composite" +
  a_chipActivationInfos :: "'c alternativeChipActivationInfo list"

fun allocAlternativeInfos ::
  "'c list \<Rightarrow> (activateChildChipOptions \<times> 'c chipSpec \<times> signal option) list
     \<Rightarrow> 'c list \<times> 'c alternativeChipActivationInfo list" where
  "allocAlternativeInfos objs [] = (objs, [])"
| "allocAlternativeInfos objs ((options, spec, sig) # rest) =
     (case allocSpec objs spec of
        (objs1, r) \<Rightarrow>
          (case allocAlternativeInfos objs1 rest of
             (objs2, infos) \<Rightarrow>
               (objs2,
                \<lparr> o_context = o_context options, o_inputSignal = o_inputSignal options,
                  o_attribute = o_attribute options,
                  o_includeInChildContext = o_includeInChildContext options,
                  o_id = o_id options, o_reloadMemento = o_reloadMemento options,
                  i_chip = r, i_signal = sig \<rparr> # infos)))"

definition new_Alternative ::
  "(activateChildChipOptions \<times> 'c chipSpec \<times> signal option) list \<Rightarrow> 'c alternative" where
  "new_Alternative specs =
     (case allocAlternativeInfos [] specs of
        (objs, infos) \<Rightarrow>
          \<lparr> chipContext = None, lastTickInfo = None, inputSignal = None, reloadMemento = None,
            eventListeners = [], outputSignal = None, state = Inactive, registered = [],
            emitted = [],
            childChipContext = Map.empty, deferredOutputSignal = None,
            methodCallInProgress = False, isReady = False, childChips = [],
            objects = objs, attributes = [], randomCounter = 0, uniqueIdCounter = 0,
            a_chipActivationInfos = infos \<rparr>)"

text \<open>
  \<open>terminate\<close> of an \<open>Alternative\<close>.  The children are terminated after
  \<open>_unsubscribe()\<close> has dropped every subscription of the chip, so only the callbacks of
  \<open>Composite\<close> are passed on for the events the children emit then.
\<close>

definition alternative_terminate ::
  "'c chipOps \<Rightarrow> signal option \<Rightarrow> ('c, 'z) alternative_scheme
     \<Rightarrow> error + ('c, 'z) alternative_scheme" where
  "alternative_terminate ops = composite_terminate ops compositeCallback noHook"

definition alternative_onChildTerminated ::
  "'c chipOps \<Rightarrow> nat \<Rightarrow> ('c, 'z) alternative_scheme \<Rightarrow> error + ('c, 'z) alternative_scheme" where
  "alternative_onChildTerminated ops index c =
     (if index < length (a_chipActivationInfos c) then
        (let terminateWith =
               (case i_signal (a_chipActivationInfos c ! index) of
                  Some s \<Rightarrow> s
                | None \<Rightarrow> new_Signal (Some (natToString index)) None)
         in alternative_terminate ops (Some terminateWith) c)
      else Inl (TypeError ''undefined''))"

definition alternativeCallback ::
  "'c chipOps \<Rightarrow> callbackRef \<Rightarrow> ('c, 'z) alternative_scheme
     \<Rightarrow> error + ('c, 'z) alternative_scheme" where
  "alternativeCallback ops ref c =
     (case ref of
        CbOnChildTerminated index \<Rightarrow> alternative_onChildTerminated ops index c
      | _ \<Rightarrow> compositeCallback ref c)"

text \<open>
  The loop of \<open>Alternative._onActivate\<close>.  The chip is resolved once for the
  subscription, with the entry's \<open>context\<close> (or \<open>{}\<close>) in the place of the context, and
  once more inside \<open>_activateChildChip\<close>.
\<close>

definition contextArgument :: "chipContextResolvable option \<Rightarrow> chipContext" where
  "contextArgument r = (case r of Some (CtxObject m) \<Rightarrow> m | _ \<Rightarrow> Map.empty)"

fun alternative_activateLoop ::
  "'c chipOps \<Rightarrow> nat \<Rightarrow> 'c alternativeChipActivationInfo list
     \<Rightarrow> ('c, 'z) alternative_scheme \<Rightarrow> error + ('c, 'z) alternative_scheme" where
  "alternative_activateLoop ops i [] c = Inr c"
| "alternative_activateLoop ops i (info # rest) c =
     (case resolveChip (i_chip info) (contextArgument (o_context info)) c of
        None \<Rightarrow> alternative_activateLoop ops (Suc i) rest c
      | Some (c1, chip) \<Rightarrow>
          ebind (subscribe (EmObject chip) ''terminated'' (CbOnChildTerminated i) c1) (\<lambda>c2.
          ebind (activateChildChip ops (alternativeCallback ops) (i_chip info)
                   (noOptions\<lparr>o_context := o_context info\<rparr>) c2) (\<lambda>(c3, activated).
            alternative_activateLoop ops (Suc i) rest c3)))"

definition alternative_onActivate ::
  "'c chipOps \<Rightarrow> ('c, 'z) alternative_scheme \<Rightarrow> error + ('c, 'z) alternative_scheme" where
  "alternative_onActivate ops c = alternative_activateLoop ops 0 (a_chipActivationInfos c) c"

definition alternative_activate ::
  "'c chipOps \<Rightarrow> tickInfo \<Rightarrow> chipContext \<Rightarrow> signal option \<Rightarrow> reloadMemento option
     \<Rightarrow> ('c, 'z) alternative_scheme \<Rightarrow> error + ('c, 'z) alternative_scheme" where
  "alternative_activate ops = composite_activate ''Alternative'' (alternative_onActivate ops)"

definition alternative_tick ::
  "'c chipOps \<Rightarrow> tickInfo \<Rightarrow> ('c, 'z) alternative_scheme
     \<Rightarrow> error + ('c, 'z) alternative_scheme" where
  "alternative_tick ops = composite_tick ops (alternativeCallback ops) noHook noHook noHook"

section \<open>Sequence\<close>

record 'c sequence = "'c composite" +
  s_loop :: bool
  s_terminateOnCompletion :: bool
  s_chipActivationInfos :: "'c chipActivationInfo list"
  s_currentChipIndex :: int
  s_currentChip :: "nat option"

definition new_Sequence ::
  "(activateChildChipOptions \<times> 'c chipSpec) list \<Rightarrow> bool option \<Rightarrow> bool option \<Rightarrow> 'c sequence" where
  "new_Sequence specs loop terminateOnCompletion =
     (case allocInfos [] specs of
        (objs, infos) \<Rightarrow>
          \<lparr> chipContext = None, lastTickInfo = None, inputSignal = None, reloadMemento = None,
            eventListeners = [], outputSignal = None, state = Inactive, registered = [],
            emitted = [],
            childChipContext = Map.empty, deferredOutputSignal = None,
            methodCallInProgress = False, isReady = False, childChips = [],
            objects = objs, attributes = [], randomCounter = 0, uniqueIdCounter = 0,
            s_loop = (case loop of None \<Rightarrow> False | Some b \<Rightarrow> b),
            s_terminateOnCompletion =
              (case terminateOnCompletion of None \<Rightarrow> True | Some b \<Rightarrow> b),
            s_chipActivationInfos = infos, s_currentChipIndex = 0, s_currentChip = None \<rparr>)"

definition sequence_onTerminate ::
  "('c, 'z) sequence_scheme \<Rightarrow> error + ('c, 'z) sequence_scheme" where
  "sequence_onTerminate c = Inr (c\<lparr>s_currentChip := None\<rparr>)"

definition sequence_terminate ::
  "'c chipOps \<Rightarrow> signal option \<Rightarrow> ('c, 'z) sequence_scheme \<Rightarrow> error + ('c, 'z) sequence_scheme" where
  "sequence_terminate ops = composite_terminate ops compositeCallback sequence_onTerminate"

text \<open>\<open>Sequence._switchChip\<close>.\<close>

definition sequence_switchChip ::
  "'c chipOps \<Rightarrow> ('c, 'z) sequence_scheme \<Rightarrow> error + ('c, 'z) sequence_scheme" where
  "sequence_switchChip ops c =
     ebind (case s_currentChip c of
              None \<Rightarrow> Inr c
            | Some chip \<Rightarrow>
                ebind (if length (childChips c) > 0
                       then terminateChildChip ops compositeCallback chip None c
                       else Inr c)
                  (\<lambda>c1. Inr (c1\<lparr>s_currentChip := None\<rparr>)))
       (\<lambda>c2.
          if s_currentChipIndex c2 < int (length (s_chipActivationInfos c2)) then
            (if s_currentChipIndex c2 < 0 then Inl (TypeError ''undefined'')
             else
               let info = s_chipActivationInfos c2 ! nat (s_currentChipIndex c2);
                   infoWithId =
                     (if truthy (o_attribute info) \<or> truthy (o_id info) then info
                      else info\<lparr>o_id :=
                             Some (natToString (length (s_chipActivationInfos c2) - 1))\<rparr>)
               in ebind (activateChildChip ops compositeCallback (i_chip info) infoWithId c2)
                    (\<lambda>(c3, chip). Inr (c3\<lparr>s_currentChip := Some chip\<rparr>)))
          else Inr c2)"

text \<open>\<open>Sequence._advance\<close>.\<close>

definition sequence_advance ::
  "'c chipOps \<Rightarrow> signal \<Rightarrow> ('c, 'z) sequence_scheme \<Rightarrow> error + ('c, 'z) sequence_scheme" where
  "sequence_advance ops sig c =
     ebind (sequence_switchChip ops (c\<lparr>s_currentChipIndex := s_currentChipIndex c + 1\<rparr>)) (\<lambda>c1.
       if s_currentChipIndex c1 \<ge> int (length (s_chipActivationInfos c1)) then
         (if s_loop c1 then sequence_switchChip ops (c1\<lparr>s_currentChipIndex := 0\<rparr>)
          else if s_terminateOnCompletion c1 then sequence_terminate ops (Some sig) c1
          else Inr c1)
       else Inr c1)"

definition mementoIndex :: "reloadMemento option \<Rightarrow> int" where
  "mementoIndex memento =
     (case memento of
        None \<Rightarrow> 0
      | Some m \<Rightarrow>
          (case mementoData m of
             None \<Rightarrow> 0
           | Some d \<Rightarrow> (case map_of d ''currentChipIndex'' of Some (MNum n) \<Rightarrow> n | _ \<Rightarrow> 0)))"

definition sequence_onActivate ::
  "'c chipOps \<Rightarrow> ('c, 'z) sequence_scheme \<Rightarrow> error + ('c, 'z) sequence_scheme" where
  "sequence_onActivate ops c =
     (let c1 = c\<lparr>s_currentChipIndex := mementoIndex (reloadMemento c), s_currentChip := None\<rparr>
      in if length (s_chipActivationInfos c1) = 0 then
           (if s_terminateOnCompletion c1
            then sequence_terminate ops (Some (new_Signal None None)) c1
            else Inr c1)
         else sequence_switchChip ops c1)"

definition sequence_onAfterTick ::
  "'c chipOps \<Rightarrow> ('c, 'z) sequence_scheme \<Rightarrow> error + ('c, 'z) sequence_scheme" where
  "sequence_onAfterTick ops c =
     (case s_currentChip c of
        None \<Rightarrow> Inr c
      | Some chip \<Rightarrow>
          ebind (getObject c chip) (\<lambda>currentChip.
            case op_outputSignal ops currentChip of
              Some sig \<Rightarrow> sequence_advance ops sig c
            | None \<Rightarrow> Inr c))"

definition sequence_activate ::
  "'c chipOps \<Rightarrow> tickInfo \<Rightarrow> chipContext \<Rightarrow> signal option \<Rightarrow> reloadMemento option
     \<Rightarrow> ('c, 'z) sequence_scheme \<Rightarrow> error + ('c, 'z) sequence_scheme" where
  "sequence_activate ops = composite_activate ''Sequence'' (sequence_onActivate ops)"

definition sequence_tick ::
  "'c chipOps \<Rightarrow> tickInfo \<Rightarrow> ('c, 'z) sequence_scheme \<Rightarrow> error + ('c, 'z) sequence_scheme" where
  "sequence_tick ops =
     composite_tick ops compositeCallback sequence_onTerminate noHook (sequence_onAfterTick ops)"

definition sequence_skip ::
  "'c chipOps \<Rightarrow> ('c, 'z) sequence_scheme \<Rightarrow> error + ('c, 'z) sequence_scheme" where
  "sequence_skip ops = sequence_advance ops (new_Signal (Some ''skip'') None)"

definition sequence_restart ::
  "'c chipOps \<Rightarrow> ('c, 'z) sequence_scheme \<Rightarrow> error + ('c, 'z) sequence_scheme" where
  "sequence_restart ops c = sequence_switchChip ops (c\<lparr>s_currentChipIndex := 0\<rparr>)"

text \<open>A run of ticks, stopping at the first exception.\<close>

fun sequence_ticks ::
  "'c chipOps \<Rightarrow> number list \<Rightarrow> ('c, 'z) sequence_scheme \<Rightarrow> error + ('c, 'z) sequence_scheme" where
  "sequence_ticks ops [] c = Inr c"
| "sequence_ticks ops (t # ts) c =
     ebind (sequence_tick ops \<lparr>timeSinceLastTick = t\<rparr> c) (sequence_ticks ops ts)"

definition activationCount :: "'z chipBase_scheme \<Rightarrow> nat" where
  "activationCount c =
     length (filter (\<lambda>ev. case ev of EvActivatedChildChip _ \<Rightarrow> True | _ \<Rightarrow> False) (emitted c))"

section \<open>StateMachine\<close>

















section \<open>Queue\<close>



















section \<open>Ticks that complete a \<open>Wait\<close> chip\<close>

text \<open>
  \<open>completesFrom acc d ts\<close>: a \<open>Wait\<close> chip of duration \<open>d\<close> that has accumulated
  \<open>acc\<close> and then receives the ticks \<open>ts\<close> reaches its duration at the last of them
  and not before (\<open>Wait._onTick\<close> adds the time of each tick, in the arithmetic of
  doubles, and requests termination when the sum is at least the duration).
\<close>

fun completesFrom :: "number \<Rightarrow> number \<Rightarrow> number list \<Rightarrow> bool" where
  "completesFrom acc d [] = False"
| "completesFrom acc d [t] = jsGe (jsAdd acc t) d"
| "completesFrom acc d (t # t2 # rest) =
     (\<not> jsGe (jsAdd acc t) d \<and> completesFrom (jsAdd acc t) d (t2 # rest))"

definition completesAtEnd :: "number \<Rightarrow> number list \<Rightarrow> bool" where
  "completesAtEnd d ts = completesFrom (Finite 0) d ts"

text \<open>
  \<open>staysBelow acc d ts\<close>: the \<open>Wait\<close> chip does not reach its duration during
  the ticks \<open>ts\<close>.
\<close>

fun staysBelow :: "number \<Rightarrow> number \<Rightarrow> number list \<Rightarrow> bool" where
  "staysBelow acc d [] = True"
| "staysBelow acc d (t # ts) = (\<not> jsGe (jsAdd acc t) d \<and> staysBelow (jsAdd acc t) d ts)"

text \<open>The double nearest to one tenth.\<close>

definition tenth :: number where
  "tenth = Finite (3602879701896397 / 36028797018963968)"

text \<open>The \<open>Sequence\<close> over two \<open>Wait\<close> chips, with the default options.\<close>

definition twoWaits :: "number \<Rightarrow> number \<Rightarrow> leaf sequence" where
  "twoWaits d1 d2 =
     new_Sequence [bare (SpecChip (new_leaf (Wait d1))),
                   bare (SpecChip (new_leaf (Wait d2)))] None None"

text \<open>
  The composite \<open>c\<close> after a tick that only its child at address \<open>a\<close> has
  noticed: both have recorded the tick information, and the child has accumulated
  \<open>acc\<close>.
\<close>

definition waitingAt ::
  "leaf sequence \<Rightarrow> nat \<Rightarrow> number \<Rightarrow> tickInfo option \<Rightarrow> leaf sequence" where
  "waitingAt c a acc lt =
     c\<lparr>lastTickInfo := lt,
       objects := (objects c)[a := (objects c ! a)\<lparr>lastTickInfo := lt,
                                                    accumulatedTime := Some acc\<rparr>]\<rparr>"

section \<open>Sums that are exact\<close>

lemma ebind_Inl [simp]: "ebind (Inl e) f = Inl e"
  by (simp add: ebind_def)

lemma ebind_Inr [simp]: "ebind (Inr x) f = f x"
  by (simp add: ebind_def)

lemma bitLength_le: "bitLength n \<le> m \<longleftrightarrow> n < 2 ^ m"
proof (induction n arbitrary: m rule: bitLength.induct)
  case (1 n)
  show ?case
  proof (cases "n = 0")
    case True
    then show ?thesis by (simp add: bitLength.simps)
  next
    case False
    show ?thesis
    proof (cases m)
      case 0
      with False show ?thesis by (simp add: bitLength.simps)
    next
      case (Suc k)
      from 1[OF False, of k] have "bitLength (n div 2) \<le> k \<longleftrightarrow> n div 2 < 2 ^ k" .
      moreover have "n div 2 < 2 ^ k \<longleftrightarrow> n < 2 ^ Suc k" by auto
      ultimately show ?thesis using False Suc by (subst bitLength.simps) simp
    qed
  qed
qed

lemma roundHalfEven_of_int [simp]: "roundHalfEven (of_int n) = n"
  by (simp add: roundHalfEven_def)

lemma roundToDouble_exact:
  assumes "x \<noteq> 0" and ar: "\<bar>x\<bar> = of_int a" and le: "a \<le> 2 ^ 53"
  shows "roundToDouble x = Finite x"
proof -
  have a1: "1 \<le> a"
  proof -
    from assms(1) ar have "0 < (of_int a :: real)" by (metis zero_less_abs_iff)
    then show ?thesis by simp
  qed
  define e where "e = int (bitLength (nat a)) - 1"
  have be: "binaryExponent (of_int a) = e"
    using a1 by (simp add: binaryExponent_def e_def)
  have "nat a < 2 ^ 54" using le by (simp add: nat_less_iff)
  then have "bitLength (nat a) \<le> 54" by (simp add: bitLength_le)
  then have e53: "e \<le> 53" by (simp add: e_def)
  have e0: "0 \<le> e"
  proof -
    have "\<not> nat a < 2 ^ 0" using a1 by simp
    then have "\<not> bitLength (nat a) \<le> 0" by (simp only: bitLength_le) simp
    then show ?thesis by (simp add: e_def)
  qed
  define k where "k = max (e - 52) (- 1074)"
  have kk: "k = e - 52" using e0 by (simp add: k_def)
  have exact: "of_int (roundHalfEven (of_int a / pow2 k)) * pow2 k = (of_int a :: real)"
  proof (cases "0 \<le> k")
    case True
    with kk e53 have "k = 0 \<or> k = 1" by auto
    then show ?thesis
    proof
      assume "k = 0"
      then show ?thesis by (simp add: pow2_def)
    next
      assume k1: "k = 1"
      with kk have "e = 53" by simp
      then have "bitLength (nat a) = 54" by (simp add: e_def)
      then have "\<not> bitLength (nat a) \<le> 53" by simp
      then have "\<not> nat a < 2 ^ 53" by (simp add: bitLength_le)
      with le have a53: "a = 2 ^ 53" by (simp add: nat_less_iff)
      then have "real_of_int a / pow2 k = of_int (2 ^ 52)" using k1 by (simp add: pow2_def)
      then have "roundHalfEven (real_of_int a / pow2 k) = 2 ^ 52"
        by (simp only: roundHalfEven_of_int)
      then show ?thesis using k1 a53 by (simp add: pow2_def)
    qed
  next
    case False
    then have p: "pow2 k = 1 / 2 ^ nat (- k)" by (simp add: pow2_def)
    have "real_of_int a / pow2 k = of_int (a * 2 ^ nat (- k))" by (simp add: p)
    then have "roundHalfEven (real_of_int a / pow2 k) = a * 2 ^ nat (- k)"
      by (simp only: roundHalfEven_of_int)
    then show ?thesis by (simp add: p)
  qed
  have r: "of_int (roundHalfEven (\<bar>x\<bar> / pow2 (max (binaryExponent \<bar>x\<bar> - 52) (- 1074)))) *
             pow2 (max (binaryExponent \<bar>x\<bar> - 52) (- 1074)) = \<bar>x\<bar>"
    using exact by (simp only: ar be k_def)
  have small: "\<not> 2 ^ 1024 \<le> \<bar>x\<bar>"
  proof -
    have "(of_int a :: real) \<le> of_int (2 ^ 53)" using le by (simp only: of_int_le_iff)
    also have "\<dots> < 2 ^ 1024" by simp
    finally show ?thesis by (simp only: ar not_le)
  qed
  show ?thesis
    unfolding roundToDouble_def Let_def r using small assms(1) by (cases "0 < x") simp_all
qed

lemma roundToDouble_of_int:
  assumes "\<bar>n\<bar> \<le> 2 ^ 53"
  shows "roundToDouble (of_int n) = Finite (of_int n)"
proof (cases "n = 0")
  case True
  then show ?thesis by (simp add: roundToDouble_def)
next
  case False
  then show ?thesis using assms by (intro roundToDouble_exact[where a="\<bar>n\<bar>"]) simp_all
qed

lemma roundToDouble_numeral [simp]:
  "numeral w \<le> (9007199254740992 :: int) \<Longrightarrow> roundToDouble (numeral w) = Finite (numeral w)"
  using roundToDouble_of_int[of "numeral w"] by simp

lemma roundToDouble_0 [simp]: "roundToDouble 0 = Finite 0"
  by (simp add: roundToDouble_def)

lemma roundToDouble_1 [simp]: "roundToDouble 1 = Finite 1"
  using roundToDouble_of_int[of 1] by simp

section \<open>Properties of context merging\<close>

lemma processChipContext_append:
  "processChipContext c (xs @ ys) = processChipContext (processChipContext c xs) ys"
  by (induction c xs rule: processChipContext.induct) simp_all

lemma processChipContext_leaves:
  "\<forall>x \<in> set rest. leavesKey k x \<Longrightarrow> processChipContext c rest k = c k"
proof (induction c rest rule: processChipContext.induct)
  case (4 c m rest)
  then show ?case by (simp add: map_add_def)
qed simp_all

lemma processChipContextHeap_extends:
  "processChipContextHeap h c alts = (h', r) \<Longrightarrow> prefix h h'"
proof (induction h c alts arbitrary: h' r rule: processChipContextHeap.induct)
  case (3 h c f rest)
  then have "prefix (h @ [f (h ! c)]) h'" by simp
  then show ?case by (meson append_prefixD)
next
  case (4 h c m rest)
  then have "prefix (h @ [Map.empty ++ (h ! c) ++ m]) h'" by simp
  then show ?case by (meson append_prefixD)
qed simp_all

lemma processChipContextHeap_value:
  "c < length h \<Longrightarrow> processChipContextHeap h c alts = (h', r) \<Longrightarrow>
     r < length h' \<and> h' ! r = processChipContext (h ! c) alts"
proof (induction h c alts arbitrary: h' r rule: processChipContextHeap.induct)
  case (3 h c f rest)
  from 3(1)[of h' r] 3(3) show ?case by (simp add: nth_append)
next
  case (4 h c m rest)
  from 4(1)[of h' r] 4(3) show ?case by (simp add: nth_append)
qed simp_all

lemma processChipContextHeap_append:
  "processChipContextHeap h c (xs @ ys) =
     (case processChipContextHeap h c xs of (h1, c1) \<Rightarrow> processChipContextHeap h1 c1 ys)"
  by (induction h c xs rule: processChipContextHeap.induct) simp_all

lemma processChipContext_later_wins:
  assumes "i < length alts" and "alts ! i = Some (CtxObject m)" and "m k = Some v"
    and "\<forall>j. i < j \<and> j < length alts \<longrightarrow> leavesKey k (alts ! j)"
  shows "processChipContext c alts k = Some v"
proof -
  have split: "alts = take i alts @ Some (CtxObject m) # drop (Suc i) alts"
    using assms(1,2) by (metis id_take_nth_drop)
  have rest: "\<forall>x \<in> set (drop (Suc i) alts). leavesKey k x"
  proof
    fix x assume "x \<in> set (drop (Suc i) alts)"
    then obtain n where "n < length (drop (Suc i) alts)" and "x = drop (Suc i) alts ! n"
      by (metis in_set_conv_nth)
    then show "leavesKey k x" using assms(4) by simp
  qed
  have "processChipContext c alts k =
          processChipContext (processChipContext c (take i alts) ++ m) (drop (Suc i) alts) k"
    by (subst split) (simp add: processChipContext_append)
  also have "\<dots> = (processChipContext c (take i alts) ++ m) k"
    using rest by (rule processChipContext_leaves)
  also have "\<dots> = Some v" using assms(3) by (simp add: map_add_def)
  finally show ?thesis .
qed

lemma processChipContext_function_decides:
  assumes "i < length alts" and "alts ! i = Some (CtxFactory f)"
    and "\<forall>j. i < j \<and> j < length alts \<longrightarrow> leavesKey k (alts ! j)"
  shows "processChipContext c alts k = f (processChipContext c (take i alts)) k"
proof -
  have split: "alts = take i alts @ Some (CtxFactory f) # drop (Suc i) alts"
    using assms(1,2) by (metis id_take_nth_drop)
  have rest: "\<forall>x \<in> set (drop (Suc i) alts). leavesKey k x"
  proof
    fix x assume "x \<in> set (drop (Suc i) alts)"
    then obtain n where "n < length (drop (Suc i) alts)" and "x = drop (Suc i) alts ! n"
      by (metis in_set_conv_nth)
    then show "leavesKey k x" using assms(3) by simp
  qed
  have "processChipContext c alts k =
          processChipContext (f (processChipContext c (take i alts))) (drop (Suc i) alts) k"
    by (subst split) (simp add: processChipContext_append)
  also have "\<dots> = f (processChipContext c (take i alts)) k"
    using rest by (rule processChipContext_leaves)
  finally show ?thesis .
qed

lemma processChipContext_snoc:
  "processChipContext c (alts @ [a]) =
     (case a of
        None \<Rightarrow> processChipContext c alts
      | Some (CtxObject m) \<Rightarrow> processChipContext c alts ++ m
      | Some (CtxFactory f) \<Rightarrow> f (processChipContext c alts))"
  by (simp add: processChipContext_append split: option.splits chipContextResolvable.splits)

lemma last_decider:
  "(\<forall>x \<in> set alts. leavesKey k x) \<or>
   (\<exists>i < length alts. \<not> leavesKey k (alts ! i) \<and>
       (\<forall>j. i < j \<and> j < length alts \<longrightarrow> leavesKey k (alts ! j)))"
proof (induction alts rule: rev_induct)
  case Nil
  show ?case by simp
next
  case (snoc x xs)
  show ?case
  proof (cases "leavesKey k x")
    case False
    then have "\<not> leavesKey k ((xs @ [x]) ! length xs) \<and>
       (\<forall>j. length xs < j \<and> j < length (xs @ [x]) \<longrightarrow> leavesKey k ((xs @ [x]) ! j))"
      by auto
    then show ?thesis by (intro disjI2 exI[of _ "length xs"]) simp
  next
    case True
    from snoc show ?thesis
    proof
      assume "\<forall>x \<in> set xs. leavesKey k x"
      with True show ?thesis by simp
    next
      assume "\<exists>i < length xs. \<not> leavesKey k (xs ! i) \<and>
                (\<forall>j. i < j \<and> j < length xs \<longrightarrow> leavesKey k (xs ! j))"
      then obtain i where i: "i < length xs" "\<not> leavesKey k (xs ! i)"
        "\<forall>j. i < j \<and> j < length xs \<longrightarrow> leavesKey k (xs ! j)" by blast
      have "\<forall>j. i < j \<and> j < length (xs @ [x]) \<longrightarrow> leavesKey k ((xs @ [x]) ! j)"
      proof (intro allI impI)
        fix j assume j: "i < j \<and> j < length (xs @ [x])"
        show "leavesKey k ((xs @ [x]) ! j)"
        proof (cases "j < length xs")
          case True
          with i(3) j show ?thesis by (simp add: nth_append)
        next
          case False
          with j have "j = length xs" by simp
          with \<open>leavesKey k x\<close> show ?thesis by simp
        qed
      qed
      with i(1,2) show ?thesis
        by (intro disjI2 exI[of _ i]) (simp add: nth_append)
    qed
  qed
qed

text \<open>
  Claim C7.  Merging folds the alterations from left to right: \<open>undefined\<close> is
  skipped, an object is laid over the context merged so far, and a function is applied to
  it.  For every list and every key, either no alteration touches the key, and it keeps
  the base context's value; or there is a last alteration that touches it, and that one
  decides: the entry of an object that has the key wins, and after a function the value
  is the one in the context the function returned.  The merge writes to new objects
  only: every object that existed before the call, the base context \<open>c\<close> among them,
  has the entries it had, and so has every intermediate context once it is allocated
  (the heap after any number of steps is a prefix of the final heap).
\<close>

theorem processChipContext_merge:
  assumes "c < length h" and "processChipContextHeap h c alts = (h', r)"
  shows "(\<forall>a < length h. h' ! a = h ! a) \<and>
         (\<forall>n \<le> length alts. prefix (fst (processChipContextHeap h c (take n alts))) h') \<and>
         r < length h' \<and>
         (\<forall>k. (\<forall>x \<in> set alts. leavesKey k x) \<longrightarrow> (h' ! r) k = (h ! c) k) \<and>
         (\<forall>i m k v. i < length alts \<and> alts ! i = Some (CtxObject m) \<and> m k = Some v \<and>
             (\<forall>j. i < j \<and> j < length alts \<longrightarrow> leavesKey k (alts ! j))
             \<longrightarrow> (h' ! r) k = Some v) \<and>
         (\<forall>i f k. i < length alts \<and> alts ! i = Some (CtxFactory f) \<and>
             (\<forall>j. i < j \<and> j < length alts \<longrightarrow> leavesKey k (alts ! j))
             \<longrightarrow> (h' ! r) k = f (processChipContext (h ! c) (take i alts)) k) \<and>
         (\<forall>k. (\<forall>x \<in> set alts. leavesKey k x) \<or>
              (\<exists>i < length alts. \<not> leavesKey k (alts ! i) \<and>
                  (\<forall>j. i < j \<and> j < length alts \<longrightarrow> leavesKey k (alts ! j)))) \<and>
         h' ! r = processChipContext (h ! c) alts \<and>
         (\<forall>b as. processChipContext b (as @ [None]) = processChipContext b as) \<and>
         (\<forall>b as m. processChipContext b (as @ [Some (CtxObject m)]) = processChipContext b as ++ m) \<and>
         (\<forall>b as f. processChipContext b (as @ [Some (CtxFactory f)]) = f (processChipContext b as))"
proof -
  have ext: "prefix h h'" using assms(2) by (rule processChipContextHeap_extends)
  have val: "r < length h' \<and> h' ! r = processChipContext (h ! c) alts"
    using assms by (rule processChipContextHeap_value)
  have a: "\<forall>a < length h. h' ! a = h ! a"
    using ext by (auto simp: prefix_def nth_append)
  have b: "\<forall>n \<le> length alts. prefix (fst (processChipContextHeap h c (take n alts))) h'"
  proof (intro allI impI)
    fix n assume "n \<le> length alts"
    obtain h1 c1 where h1: "processChipContextHeap h c (take n alts) = (h1, c1)"
      by (cases "processChipContextHeap h c (take n alts)")
    have "processChipContextHeap h c (take n alts @ drop n alts) = (h', r)"
      using assms(2) by simp
    then have "processChipContextHeap h1 c1 (drop n alts) = (h', r)"
      using h1 by (simp only: processChipContextHeap_append split: prod.splits) simp
    then have "prefix h1 h'" by (rule processChipContextHeap_extends)
    then show "prefix (fst (processChipContextHeap h c (take n alts))) h'"
      using h1 by simp
  qed
  have d: "\<forall>k. (\<forall>x \<in> set alts. leavesKey k x) \<longrightarrow> (h' ! r) k = (h ! c) k"
    using val by (simp add: processChipContext_leaves)
  have e: "\<forall>i m k v. i < length alts \<and> alts ! i = Some (CtxObject m) \<and> m k = Some v \<and>
             (\<forall>j. i < j \<and> j < length alts \<longrightarrow> leavesKey k (alts ! j))
             \<longrightarrow> (h' ! r) k = Some v"
    using val processChipContext_later_wins by metis
  have f: "\<forall>i f k. i < length alts \<and> alts ! i = Some (CtxFactory f) \<and>
             (\<forall>j. i < j \<and> j < length alts \<longrightarrow> leavesKey k (alts ! j))
             \<longrightarrow> (h' ! r) k = f (processChipContext (h ! c) (take i alts)) k"
    using val processChipContext_function_decides by metis
  have g: "\<forall>k. (\<forall>x \<in> set alts. leavesKey k x) \<or>
              (\<exists>i < length alts. \<not> leavesKey k (alts ! i) \<and>
                  (\<forall>j. i < j \<and> j < length alts \<longrightarrow> leavesKey k (alts ! j)))"
    using last_decider by blast
  have s: "(\<forall>b as. processChipContext b (as @ [None]) = processChipContext b as) \<and>
         (\<forall>b as m. processChipContext b (as @ [Some (CtxObject m)]) = processChipContext b as ++ m) \<and>
         (\<forall>b as f. processChipContext b (as @ [Some (CtxFactory f)]) = f (processChipContext b as))"
    by (simp add: processChipContext_snoc)
  from a b val d e f g s show ?thesis by (elim conjE, intro conjI) assumption+
qed

theorem processChipContext_merge_witness:
  "(let h = [[''a'' \<mapsto> VNum 1, ''b'' \<mapsto> VNum 2]];
        alts = [Some (CtxObject [''a'' \<mapsto> VNum 3]),
                Some (CtxFactory (\<lambda>old. old(''d'' \<mapsto> VNum 5, ''b'' := None))), None,
                Some (CtxObject [''c'' \<mapsto> VNum 4])];
        (h', r) = processChipContextHeap h 0 alts
    in h' ! 0 = h ! 0 \<and> (h' ! r) ''a'' = Some (VNum 3) \<and> (h' ! r) ''b'' = None \<and>
       (h' ! r) ''c'' = Some (VNum 4) \<and> (h' ! r) ''d'' = Some (VNum 5))"
  using processChipContext_merge [of 0 "[[''a'' \<mapsto> VNum 1, ''b'' \<mapsto> VNum 2]]"
      "[Some (CtxObject [''a'' \<mapsto> VNum 3]),
        Some (CtxFactory (\<lambda>old. old(''d'' \<mapsto> VNum 5, ''b'' := None))), None,
        Some (CtxObject [''c'' \<mapsto> VNum 4])]"]
  by (simp add: nth_append)

section \<open>Selective unsubscription\<close>

lemma unsubscribeListeners_kept:
  "snd (unsubscribeListeners emitter event cb ls) =
     filter (\<lambda>l. \<not> unsubscribeCondition emitter event cb l) ls"
  by (simp add: unsubscribeListeners_def fork_def)

lemma unsubscribeListeners_all:
  "unsubscribeListeners None None None ls = (ls, [])"
  by (simp add: unsubscribeListeners_def fork_def unsubscribeCondition_def)

text \<open>
  Claim C10.  Three listeners are tracked: two on emitter 1 (events \<open>a\<close> and \<open>b\<close>) and
  one on emitter 2 (event \<open>c\<close>).  \<open>_unsubscribe(emitter 1, "a")\<close> hands the listener
  on emitter 2 to \<open>unsubscribe\<close> and keeps both listeners on emitter 1, the one
  registered for \<open>a\<close> included: the listeners that pass the condition are the first
  component of \<open>fork\<close>, which the source takes as the listeners to remove.
\<close>

theorem unsubscribe_emitter_event_removes_the_others:
  "unsubscribeListeners (Some (EmObject 1)) (Some ''a'') None
     [\<lparr>l_emitter = EmObject 1, l_event = ''a'', l_cb = CbFunction 1,
        l_subscriptionHandler = NodeEventSourceSubscriptionHandler\<rparr>,
      \<lparr>l_emitter = EmObject 1, l_event = ''b'', l_cb = CbFunction 2,
        l_subscriptionHandler = NodeEventSourceSubscriptionHandler\<rparr>,
      \<lparr>l_emitter = EmObject 2, l_event = ''c'', l_cb = CbFunction 3,
        l_subscriptionHandler = NodeEventSourceSubscriptionHandler\<rparr>]
   = ([\<lparr>l_emitter = EmObject 2, l_event = ''c'', l_cb = CbFunction 3,
         l_subscriptionHandler = NodeEventSourceSubscriptionHandler\<rparr>],
      [\<lparr>l_emitter = EmObject 1, l_event = ''a'', l_cb = CbFunction 1,
         l_subscriptionHandler = NodeEventSourceSubscriptionHandler\<rparr>,
       \<lparr>l_emitter = EmObject 1, l_event = ''b'', l_cb = CbFunction 2,
         l_subscriptionHandler = NodeEventSourceSubscriptionHandler\<rparr>])"
  by (simp add: unsubscribeListeners_def fork_def unsubscribeCondition_def)

section \<open>The lifecycle of the chips without children\<close>

lemma completedCycle_emit:
  "completedCycle (emit ev c) \<longleftrightarrow> completedCycle c \<or> (case ev of EvTerminated _ \<Rightarrow> True | _ \<Rightarrow> False)"
  by (auto simp: completedCycle_def emit_def)

lemma completedCycle_cong:
  "emitted c' = emitted c \<Longrightarrow> completedCycle c' = completedCycle c"
  by (simp add: completedCycle_def)













section \<open>Evaluation of the model on given inputs\<close>

lemmas composite_eval =
  composite_activate_def composite_terminate_def composite_tick_def
  chipBase_activate_def activateBegin_def chipBase_terminate_def chipBase_tick_def
  noHook_def unsubscribe_def subscribe_def subscribeOnce_def
  subscribeWith_def subscriptionHandlerFor_def resize_def emit_def Let_def
  unsubscribeListeners_def fork_def unsubscribeCondition_def new_Signal_def
  terminateAllChildChips_def tickChildChips_def removeTerminatedChildChips_def
  callChild_def getObject_def deliverEvent_def eventName_def

lemmas parallel_eval =
  new_Parallel_def parallel_activate_def parallel_tick_def parallel_terminate_def
  parallel_onActivate_def parallel_onAfterTick_def parallel_activateInfo_def

lemmas leaf_eval2 =
  leaf_activate_def leaf_onActivate_def leaf_terminate_def
  leaf_tick_def leaf_onTick_def leaf_pause_def chipBase_pause_def
  leaf_resume_def chipBase_resume_def new_leaf_def leafClassName_def leafOps_def

lemmas child_eval =
  activateChildChip_def terminateChildChip_def replaceAttribute_def provideId_def
  bindAttribute_def includeInContext_def resolveChip_def truthy_def
  recordSet_def recordHas_def recordDelete_def isArrayIndex_def isDigit_def digitsValue_def
  endsWithBrackets_def natToString.simps digitChar_def digitValue_def compositeCallback_def
  allocSpec_def bare_def noOptions_def justChip_def

section \<open>Deferred termination of composites\<close>

lemma callChild_op_tick:
  "callChild (ops\<lparr>op_tick := tk\<rparr>) cb a f c = callChild ops cb a f c"
  by (simp add: callChild_def)

lemma terminateLoop_op_tick:
  "terminateLoop (ops\<lparr>op_tick := tk\<rparr>) cb sig as c = terminateLoop ops cb sig as c"
  by (induction as arbitrary: c) (simp_all add: callChild_op_tick cong: if_cong)

lemma composite_terminate_op_tick:
  "composite_terminate (ops\<lparr>op_tick := tk\<rparr>) cb onTerminate sig c =
   composite_terminate ops cb onTerminate sig c"
  by (simp add: composite_terminate_def terminateAllChildChips_def terminateLoop_op_tick
      cong: if_cong)

lemma composite_terminate_deferred:
  "state c \<noteq> Inactive \<Longrightarrow> methodCallInProgress c \<Longrightarrow>
     composite_terminate ops cb onTerminate sig c =
       Inr (c\<lparr>deferredOutputSignal :=
                Some (case sig of None \<Rightarrow> new_Signal None None | Some s \<Rightarrow> s)\<rparr>)"
  by (cases "state c") (simp_all add: composite_terminate_def)

lemma composite_activate_terminating_hook:
  assumes "state c0 = Inactive"
  shows "\<exists>c1. composite_activate cname (composite_terminate ops cb onTerminate sig) ti ctx inp m c0 = Inr c1 \<and>
           state c1 = Active \<and> outputSignal c1 = None \<and> \<not> methodCallInProgress c1 \<and>
           deferredOutputSignal c1 = Some (case sig of None \<Rightarrow> new_Signal None None | Some s \<Rightarrow> s)"
  using assms
  by (simp add: composite_activate_def chipBase_activate_def activateBegin_def
      composite_terminate_def subscribe_def subscribeWith_def subscriptionHandlerFor_def
      resize_def emit_def Let_def)

lemma composite_tick_deferred:
  assumes "state c = Active" and "deferredOutputSignal c = Some s"
  shows "composite_tick ops cb onTerminate onTick onAfterTick ti c =
           composite_terminate ops cb onTerminate (Some s) c"
  using assms by (simp add: composite_tick_def)

text \<open>
  Claim C8, as amended.  On an inactive composite \<open>_activateChildChip\<close> and
  \<open>_terminateChildChip\<close> throw "Composite is inactive".  The guard tests for the state
  \<open>inactive\<close> only: on an active or paused composite the methods go on to their next
  checks, so that terminating a chip that is not a child fails with "Cannot find chip to
  terminate" and activating under an id in use fails with "Duplicate child chip ID
  provided".
\<close>

theorem composite_inactive_guard:
  "(state c = Inactive \<longrightarrow>
      activateChildChip ops cb resolvable options c = Inl CompositeIsInactive \<and>
      terminateChildChip ops cb chip outputSig c = Inl CompositeIsInactive) \<and>
   (state d \<noteq> Inactive \<and> chip \<notin> snd ` set (childChips d) \<longrightarrow>
      terminateChildChip ops cb chip outputSig d = Inl CannotFindChipToTerminate) \<and>
   (state d \<noteq> Inactive \<and> o_attribute options = None \<and> o_id options = Some i \<and> i \<noteq> [] \<and>
    \<not> endsWithBrackets i \<and> recordHas (childChips d) i \<longrightarrow>
      activateChildChip ops cb resolvable options d = Inl DuplicateChildChipId)"
proof -
  have a: "chip \<notin> snd ` set (childChips d) \<Longrightarrow> find (\<lambda>(i, a). a = chip) (childChips d) = None"
    by (force simp: find_None_iff)
  show ?thesis
    using a
    by (auto simp: activateChildChip_def terminateChildChip_def replaceAttribute_def
        provideId_def Let_def)
qed


lemmas pause_eval = pausedParallel_def parallel_pause_def composite_pause_def

text \<open>
  Claim C8, as stated, fails on a paused composite: there both methods succeed.  The
  child is terminated and removed, and a new child is activated.
\<close>

theorem composite_inactive_guard_counterexample:
  "(case pausedParallel of
      Inl e \<Rightarrow> False
    | Inr c \<Rightarrow>
        state c = Paused \<and> childChips c = [(''0'', 0)] \<and>
        (case terminateChildChip leafOps compositeCallback 0 None c of
           Inl e \<Rightarrow> False
         | Inr c1 \<Rightarrow> childChips c1 = [] \<and> map state (objects c1) = [Inactive]) \<and>
        (case activateChildChip leafOps compositeCallback
                (ChipFactory (\<lambda>ctx sig. Some (new_leaf Block))) noOptions c of
           Inl e \<Rightarrow> False
         | Inr (c1, chip) \<Rightarrow>
             chip = 1 \<and> state c1 = Paused \<and> map snd (childChips c1) = [0, 1] \<and>
             map state (objects c1) = [Paused, Active]))"
  by (simp add: pause_eval parallel_eval composite_eval child_eval leaf_eval2)

text \<open>
  Claim C1, as stated, fails for a call of \<open>terminate\<close> that arrives while \<open>tick\<close>
  runs the hook \<open>_onAfterTick\<close>: the flag is no longer set there.  A \<open>Parallel\<close> over
  one \<open>Wait\<close> of 10 that is ticked with 10 terminates itself in that very tick: it is
  inactive with its output signal when \<open>tick\<close> returns, and nothing was stored.
\<close>

theorem composite_deferred_termination_counterexample:
  "(case ebind (parallel_activate leafOps \<lparr>timeSinceLastTick = Finite 0\<rparr> Map.empty None None
                 (new_Parallel [bare (SpecChip (new_leaf (Wait (Finite 10))))] None))
               (parallel_tick leafOps \<lparr>timeSinceLastTick = Finite 10\<rparr>) of
      Inl e \<Rightarrow> False
    | Inr c \<Rightarrow> state c = Inactive \<and> outputSignal c = Some (new_Signal None None) \<and>
              deferredOutputSignal c = None)"
  by (simp add: parallel_eval composite_eval child_eval leaf_eval2)

text \<open>
  Claim C2, as amended.  The activation of a \<open>Parallel\<close> without child specs and with
  \<open>terminateOnCompletion\<close> left at its default succeeds and stores the default signal:
  the chip is active and has no output signal when \<open>activate\<close> returns.  The first tick
  delivered to it terminates it with that signal.
\<close>

theorem parallel_empty_terminates_on_first_tick:
  "\<exists>c1. parallel_activate ops ti ctx inp m (new_Parallel [] None) = Inr c1 \<and>
         state c1 = Active \<and> outputSignal c1 = None \<and>
         deferredOutputSignal c1 = Some (new_Signal None None) \<and>
         (\<exists>c2. parallel_tick ops ti' c1 = Inr c2 \<and> state c2 = Inactive \<and>
                outputSignal c2 = Some (new_Signal None None))"
  by (simp add: parallel_eval composite_eval)

text \<open>
  Claim C2, as stated, fails: after \<open>activate\<close> the empty \<open>Parallel\<close> is active and
  its output signal is undefined.
\<close>

theorem parallel_empty_counterexample:
  "(case parallel_activate leafOps \<lparr>timeSinceLastTick = Finite 0\<rparr> Map.empty None None
           (new_Parallel [] None) of
      Inl e \<Rightarrow> False
    | Inr c \<Rightarrow> state c = Active \<and> outputSignal c = None)"
  by (simp add: parallel_eval composite_eval)

theorem composite_inactive_guard_witness:
  "state (new_Parallel [bare (SpecChip (new_leaf Forever))] None) = Inactive \<and>
   activateChildChip leafOps compositeCallback (ChipInstance 0) noOptions
       (new_Parallel [bare (SpecChip (new_leaf Forever))] None) = Inl CompositeIsInactive \<and>
   terminateChildChip leafOps compositeCallback 0 None
       (new_Parallel [bare (SpecChip (new_leaf Forever))] None) = Inl CompositeIsInactive \<and>
   (\<exists>d. pausedParallel = Inr d \<and> state d \<noteq> Inactive \<and> 7 \<notin> snd ` set (childChips d) \<and>
        recordHas (childChips d) ''0'' \<and>
        terminateChildChip leafOps compositeCallback 7 None d = Inl CannotFindChipToTerminate \<and>
        activateChildChip leafOps compositeCallback (ChipInstance 0) (noOptions\<lparr>o_id := Some ''0''\<rparr>) d
          = Inl DuplicateChildChipId)"
proof -
  obtain d where d: "pausedParallel = Inr d" and st: "state d = Paused"
    and ch: "childChips d = [(''0'', 0)]"
    by (simp add: pause_eval parallel_eval composite_eval child_eval leaf_eval2)
  have h1: "state (new_Parallel [bare (SpecChip (new_leaf Forever))] None) = Inactive"
    by (simp add: new_Parallel_def bare_def allocSpec_def)
  note g1 = composite_inactive_guard[where c="new_Parallel [bare (SpecChip (new_leaf Forever))] None"
      and d=d and ops=leafOps and cb=compositeCallback and resolvable="ChipInstance 0"
      and options="noOptions\<lparr>o_id := Some ''0''\<rparr>" and chip=7 and outputSig=None and i="''0''"]
  note g2 = composite_inactive_guard[where c="new_Parallel [bare (SpecChip (new_leaf Forever))] None"
      and d=d and ops=leafOps and cb=compositeCallback and resolvable="ChipInstance 0"
      and options="noOptions" and chip=0 and outputSig=None and i="''0''"]
  have a: "activateChildChip leafOps compositeCallback (ChipInstance 0) noOptions
       (new_Parallel [bare (SpecChip (new_leaf Forever))] None) = Inl CompositeIsInactive \<and>
     terminateChildChip leafOps compositeCallback 0 None
       (new_Parallel [bare (SpecChip (new_leaf Forever))] None) = Inl CompositeIsInactive"
    using g2 h1 by blast
  have b: "state d \<noteq> Inactive \<and> 7 \<notin> snd ` set (childChips d) \<and> recordHas (childChips d) ''0''"
    using st ch by (simp add: recordHas_def)
  have c: "terminateChildChip leafOps compositeCallback 7 None d = Inl CannotFindChipToTerminate \<and>
        activateChildChip leafOps compositeCallback (ChipInstance 0) (noOptions\<lparr>o_id := Some ''0''\<rparr>) d
          = Inl DuplicateChildChipId"
    using g1 b by (simp add: noOptions_def endsWithBrackets_def)
  from h1 a b c d show ?thesis by blast
qed

section \<open>Alternative and Sequence over chips without children\<close>

lemmas alternative_eval =
  new_Alternative_def alternative_activate_def alternative_tick_def alternative_terminate_def
  alternative_onActivate_def alternative_onChildTerminated_def alternativeCallback_def
  contextArgument_def

lemmas sequence_eval =
  new_Sequence_def sequence_activate_def sequence_tick_def sequence_terminate_def
  sequence_onActivate_def sequence_onAfterTick_def sequence_onTerminate_def
  sequence_switchChip_def sequence_advance_def mementoIndex_def activationCount_def

text \<open>
  Claim C3, as stated, fails: when \<open>activate\<close> returns, the \<open>Alternative\<close> over a
  \<open>Transitory\<close> and a \<open>Forever\<close> chip is active, has no output signal and its second
  child is active.  The termination that the first child caused is stored.
\<close>

theorem alternative_counterexample:
  "(case alternative_activate leafOps \<lparr>timeSinceLastTick = Finite 0\<rparr> Map.empty None None
           (new_Alternative [(noOptions, SpecChip (new_leaf (Transitory (new_Signal None None))), None),
                             (noOptions, SpecChip (new_leaf Forever), None)]) of
      Inl e \<Rightarrow> False
    | Inr c \<Rightarrow> state c = Active \<and> outputSignal c = None \<and>
              deferredOutputSignal c = Some (new_Signal (Some ''0'') None) \<and>
              map state (objects c) = [Inactive, Active])"
  by (simp add: alternative_eval composite_eval child_eval leaf_eval2)



lemma new_leaf_fields [simp]:
  "state (new_leaf k) = Inactive" "emitted (new_leaf k) = []" "outputSignal (new_leaf k) = None"
  by (simp_all add: new_leaf_def)

lemma leaf_activate_terminating:
  assumes "signalOnActivation k = Some s"
  shows "leaf_activate ti ctx inp m (new_leaf k) =
     Inr \<lparr> chipContext = Some ctx, lastTickInfo = Some ti, inputSignal = inp,
           reloadMemento = (case m of None \<Rightarrow> None
                            | Some x \<Rightarrow> if className x = leafClassName k then Some x else None),
           eventListeners = [\<lparr>l_emitter = EmWindow, l_event = ''resize'', l_cb = CbResize,
                               l_subscriptionHandler = EventTargetSubscriptionHandler\<rparr>],
           outputSignal = Some s, state = Inactive,
           registered = [\<lparr>r_listener = \<lparr>l_emitter = EmWindow, l_event = ''resize'',
                             l_cb = CbResize,
                             l_subscriptionHandler = EventTargetSubscriptionHandler\<rparr>,
                           r_once = False\<rparr>],
           emitted = [EvTerminated (Some s), EvResized, EvActivated inp],
           kind = k, accumulatedTime = None \<rparr>"
  using assms
  by (cases m)
     (auto simp: signalOnActivation_def leaf_eval2 composite_eval
        split: leafKind.splits lambdaResult.splits)

lemma leaf_activate_idle:
  assumes "k = Forever \<or> k = Block"
  shows "leaf_activate ti ctx inp m (new_leaf k) =
     Inr \<lparr> chipContext = Some ctx, lastTickInfo = Some ti, inputSignal = inp,
           reloadMemento = (case m of None \<Rightarrow> None
                            | Some x \<Rightarrow> if className x = leafClassName k then Some x else None),
           eventListeners = [\<lparr>l_emitter = EmWindow, l_event = ''resize'', l_cb = CbResize,
                               l_subscriptionHandler = EventTargetSubscriptionHandler\<rparr>],
           outputSignal = None, state = Active,
           registered = [\<lparr>r_listener = \<lparr>l_emitter = EmWindow, l_event = ''resize'',
                             l_cb = CbResize,
                             l_subscriptionHandler = EventTargetSubscriptionHandler\<rparr>,
                           r_once = False\<rparr>],
           emitted = [EvResized, EvActivated inp],
           kind = k, accumulatedTime = None \<rparr>"
  using assms
  by (cases m) (auto simp: leaf_eval2 composite_eval)

lemmas leaf_ops_eval =
  leafOps_def leaf_terminate_def leaf_tick_def leaf_onTick_def leaf_pause_def
  chipBase_pause_def leaf_resume_def chipBase_resume_def

text \<open>
  Claim C3, as amended.  An \<open>Alternative\<close> over two chips, the first terminating in its
  activation hook (a \<open>Transitory\<close> or a \<open>Lambda\<close>) and the second never terminating
  by itself (a \<open>Forever\<close> or a \<open>Block\<close>), whatever the options and outcome signals of
  the entries: \<open>activate\<close> succeeds and leaves the \<open>Alternative\<close> active, without
  output signal, its second child active.  The first tick terminates the
  \<open>Alternative\<close>: its output signal is the outcome signal of the first entry, or the
  signal named \<open>0\<close> when the entry has none, and the second child is terminated, with
  the default signal.
\<close>

theorem alternative_first_terminates:
  assumes "signalOnActivation k1 = Some s1" and "k2 = Forever \<or> k2 = Block"
  shows "\<exists>c1. alternative_activate leafOps ti ctx inp m
                (new_Alternative [(o1, SpecChip (new_leaf k1), sig0),
                                  (o2, SpecChip (new_leaf k2), sig1)]) = Inr c1 \<and>
              state c1 = Active \<and> outputSignal c1 = None \<and>
              map state (objects c1) = [Inactive, Active] \<and>
              (\<exists>c2. alternative_tick leafOps ti' c1 = Inr c2 \<and>
                     state c2 = Inactive \<and>
                     outputSignal c2 =
                       Some (case sig0 of Some s \<Rightarrow> s | None \<Rightarrow> new_Signal (Some ''0'') None) \<and>
                     map state (objects c2) = [Inactive, Inactive] \<and>
                     map outputSignal (objects c2) = [Some s1, Some (new_Signal None None)])"
proof -
  note ev = alternative_eval composite_eval child_eval leaf_ops_eval
    leaf_activate_terminating[OF assms(1)] leaf_activate_idle[OF assms(2)]
  obtain c1 where act: "alternative_activate leafOps ti ctx inp m
                (new_Alternative [(o1, SpecChip (new_leaf k1), sig0),
                                  (o2, SpecChip (new_leaf k2), sig1)]) = Inr c1"
    by (simp add: ev)
  have p1: "state c1 = Active \<and> outputSignal c1 = None \<and>
              map state (objects c1) = [Inactive, Active]"
    using act by (clarsimp simp: ev)
  have p2: "\<exists>c2. alternative_tick leafOps ti' c1 = Inr c2 \<and>
                     state c2 = Inactive \<and>
                     outputSignal c2 =
                       Some (case sig0 of Some s \<Rightarrow> s | None \<Rightarrow> new_Signal (Some ''0'') None) \<and>
                     map state (objects c2) = [Inactive, Inactive] \<and>
                     map outputSignal (objects c2) = [Some s1, Some (new_Signal None None)]"
    using act by (cases sig0) (clarsimp simp: ev)+
  from act p1 p2 show ?thesis by (intro exI[of _ c1]) simp
qed


theorem alternative_first_terminates_witness:
  "signalOnActivation (Transitory (new_Signal (Some ''won'') None)) = Some (new_Signal (Some ''won'') None) \<and>
   (\<exists>c1. alternative_activate leafOps \<lparr>timeSinceLastTick = Finite 0\<rparr> Map.empty None None
                (new_Alternative [(noOptions, SpecChip (new_leaf (Transitory (new_Signal (Some ''won'') None))), None),
                                  (noOptions, SpecChip (new_leaf Forever), None)]) = Inr c1 \<and>
              state c1 = Active \<and>
              (\<exists>c2. alternative_tick leafOps \<lparr>timeSinceLastTick = Finite 16\<rparr> c1 = Inr c2 \<and>
                     state c2 = Inactive \<and>
                     outputSignal c2 = Some (new_Signal (Some ''0'') None) \<and>
                     map state (objects c2) = [Inactive, Inactive]))"
proof -
  have h: "signalOnActivation (Transitory (new_Signal (Some ''won'') None)) = Some (new_Signal (Some ''won'') None)"
    by (simp add: signalOnActivation_def)
  from alternative_first_terminates[OF h, of Forever "\<lparr>timeSinceLastTick = Finite 0\<rparr>" Map.empty None None
      noOptions None noOptions None "\<lparr>timeSinceLastTick = Finite 16\<rparr>"] h
  show ?thesis by auto
qed

lemma leaf_activate_wait:
  "leaf_activate ti ctx inp None (new_leaf (Wait d)) =
     Inr \<lparr> chipContext = Some ctx, lastTickInfo = Some ti, inputSignal = inp,
           reloadMemento = None,
           eventListeners = [\<lparr>l_emitter = EmWindow, l_event = ''resize'', l_cb = CbResize,
                               l_subscriptionHandler = EventTargetSubscriptionHandler\<rparr>],
           outputSignal = None, state = Active,
           registered = [\<lparr>r_listener = \<lparr>l_emitter = EmWindow, l_event = ''resize'',
                             l_cb = CbResize,
                             l_subscriptionHandler = EventTargetSubscriptionHandler\<rparr>,
                           r_once = False\<rparr>],
           emitted = [EvResized, EvActivated inp],
           kind = Wait d, accumulatedTime = Some (Finite 0) \<rparr>"
  by (simp add: leaf_eval2 composite_eval)

section \<open>What the generic methods leave unchanged\<close>


lemma emit_more [simp]: "composite.more (emit ev c) = composite.more c"
  by (simp add: emit_def)

lemma unsubscribe_more [simp]: "composite.more (unsubscribe e ev cb c) = composite.more c"
  by (simp add: unsubscribe_def split: prod.splits)
















section \<open>Routing of the state machine\<close>









section \<open>The queue and its running item\<close>








section \<open>A Sequence of two Wait chips\<close>

text \<open>
  When the ticks and all partial sums are integers of magnitude at most \<open>2^53\<close> the
  sums of \<open>Wait\<close> are exact, and \<open>completesFrom\<close> says: the ticks are not empty, their
  total reaches the duration, and no proper, non-empty prefix does.  A single tick of
  the duration completes a \<open>Wait\<close> chip.
\<close>

lemma completesFrom_ints:
  fixes a d :: int
  assumes "\<forall>n \<le> length ns. \<bar>a + sum_list (take n ns)\<bar> \<le> 2 ^ 53"
  shows "completesFrom (Finite (of_int a)) (Finite (of_int d)) (map (\<lambda>n. Finite (of_int n)) ns) \<longleftrightarrow>
     ns \<noteq> [] \<and> d \<le> a + sum_list ns \<and>
     (\<forall>n. 0 < n \<and> n < length ns \<longrightarrow> a + sum_list (take n ns) < d)"
  using assms
proof (induction ns arbitrary: a)
  case Nil
  show ?case by simp
next
  case (Cons t ts)
  from Cons.prems[rule_format, of 1] have b: "\<bar>a + t\<bar> \<le> 2 ^ 53" by simp
  have add: "jsAdd (Finite (of_int a)) (Finite (of_int t)) = Finite (of_int (a + t))"
    using roundToDouble_of_int[OF b] by simp
  have le: "(of_int d \<le> (of_int a + of_int t :: real)) = (d \<le> a + t)"
    by (simp only: of_int_add[symmetric] of_int_le_iff)
  show ?case
  proof (cases ts)
    case Nil
    then show ?thesis using add le by simp
  next
    case (Cons t2 rest)
    have pre: "\<forall>n \<le> length ts. \<bar>(a + t) + sum_list (take n ts)\<bar> \<le> 2 ^ 53"
    proof (intro allI impI)
      fix n assume "n \<le> length ts"
      with Cons.prems[rule_format, of "Suc n"] show "\<bar>(a + t) + sum_list (take n ts)\<bar> \<le> 2 ^ 53"
        by (simp add: add.assoc)
    qed
    note ih = Cons.IH[OF pre]
    have "(\<forall>n. 0 < n \<and> n < length (t # ts) \<longrightarrow> a + sum_list (take n (t # ts)) < d) \<longleftrightarrow>
          a + t < d \<and> (\<forall>n. 0 < n \<and> n < length ts \<longrightarrow> a + t + sum_list (take n ts) < d)"
      (is "?L \<longleftrightarrow> ?R")
    proof
      assume l: ?L
      from l[rule_format, of 1] Cons have "a + t < d" by simp
      moreover have "\<forall>n. 0 < n \<and> n < length ts \<longrightarrow> a + t + sum_list (take n ts) < d"
      proof (intro allI impI)
        fix n assume "0 < n \<and> n < length ts"
        with l[rule_format, of "Suc n"] show "a + t + sum_list (take n ts) < d"
          by (simp add: add.assoc)
      qed
      ultimately show ?R by simp
    next
      assume r: ?R
      show ?L
      proof (intro allI impI)
        fix n assume n: "0 < n \<and> n < length (t # ts)"
        then obtain m where m: "n = Suc m" by (cases n) auto
        show "a + sum_list (take n (t # ts)) < d"
        proof (cases m)
          case 0
          with m r show ?thesis by simp
        next
          case (Suc k)
          from r have "0 < m \<and> m < length ts \<longrightarrow> a + t + sum_list (take m ts) < d"
            by blast
          with Suc m n have "a + t + sum_list (take m ts) < d" by simp
          with m show ?thesis by (simp add: add.assoc)
        qed
      qed
    qed
    with ih add le Cons show ?thesis by (auto simp: add.assoc)
  qed
qed

lemma completesAtEnd_single:
  "roundToDouble d = Finite d \<Longrightarrow> completesAtEnd (Finite d) [Finite d]"
  by (simp add: completesAtEnd_def)

text \<open>
  A tick that does not complete the only child of a sequence, a \<open>Wait\<close> chip,
  changes the accumulated time and the tick information, and nothing else.
\<close>

lemma waiting_step:
  fixes c :: "leaf sequence"
  assumes "state c = Active" "deferredOutputSignal c = None" "childChips c = [(i, a)]"
    "a < length (objects c)" "kind (objects c ! a) = Wait d" "state (objects c ! a) = Active"
    "outputSignal (objects c ! a) = None"
    "s_currentChip c = Some a" "\<not> methodCallInProgress c" "\<not> jsGe (jsAdd acc t) d"
  shows "sequence_tick leafOps \<lparr>timeSinceLastTick = t\<rparr> (waitingAt c a acc lt) =
         Inr (waitingAt c a (jsAdd acc t) (Some \<lparr>timeSinceLastTick = t\<rparr>))"
  using assms
  by (cases c)
     (simp add: waitingAt_def sequence_tick_def composite_tick_def noHook_def
        tickChildChips_def callChild_def getObject_def leafOps_def leaf_tick_def
        chipBase_tick_def leaf_onTick_def removeTerminatedChildChips_def
        sequence_onAfterTick_def Let_def)




lemma waitingAt_same:
  fixes c :: "leaf sequence"
  assumes "a < length (objects c)" "accumulatedTime (objects c ! a) = Some acc"
    "lastTickInfo (objects c ! a) = lt" "lastTickInfo c = lt"
  shows "waitingAt c a acc lt = c"
proof -
  have "(objects c ! a)\<lparr>lastTickInfo := lt, accumulatedTime := Some acc\<rparr> = objects c ! a"
    using assms(2,3) by (cases "objects c ! a") simp
  with assms(1,4) show ?thesis by (cases c) (simp add: waitingAt_def list_update_same_conv)
qed




text \<open>
  The sums are those of doubles: ten ticks of one tenth accumulate to
  \<open>0.9999999999999999\<close>, so they do not complete a \<open>Wait\<close> of 1, and the sequence
  is still at its first child after them.
\<close>

lemma tenth_rounds: "roundToDouble (1 / 10) = tenth"
  unfolding tenth_def roundToDouble_def Let_def
  apply (simp add: binaryExponent_def bitLength.simps)
  apply (simp add: pow2_def roundHalfEven_def)
  done

lemma tenths_1: "jsAdd (Finite (0)) tenth = Finite (3602879701896397 / 36028797018963968)"
  unfolding tenth_def jsAdd.simps roundToDouble_def Let_def
  apply (simp add: binaryExponent_def bitLength.simps)
  apply (simp add: pow2_def roundHalfEven_def)?
  done

lemma tenths_2: "jsAdd (Finite (3602879701896397 / 36028797018963968)) tenth = Finite (3602879701896397 / 18014398509481984)"
  unfolding tenth_def jsAdd.simps roundToDouble_def Let_def
  apply (simp add: binaryExponent_def bitLength.simps)
  apply (simp add: pow2_def roundHalfEven_def)?
  done

lemma tenths_3: "jsAdd (Finite (3602879701896397 / 18014398509481984)) tenth = Finite (1351079888211149 / 4503599627370496)"
  unfolding tenth_def jsAdd.simps roundToDouble_def Let_def
  apply (simp add: binaryExponent_def bitLength.simps)
  apply (simp add: pow2_def roundHalfEven_def)?
  done

lemma tenths_4: "jsAdd (Finite (1351079888211149 / 4503599627370496)) tenth = Finite (3602879701896397 / 9007199254740992)"
  unfolding tenth_def jsAdd.simps roundToDouble_def Let_def
  apply (simp add: binaryExponent_def bitLength.simps)
  apply (simp add: pow2_def roundHalfEven_def)?
  done

lemma tenths_5: "jsAdd (Finite (3602879701896397 / 9007199254740992)) tenth = Finite (1 / 2)"
  unfolding tenth_def jsAdd.simps roundToDouble_def Let_def
  apply (simp add: binaryExponent_def bitLength.simps)
  apply (simp add: pow2_def roundHalfEven_def)?
  done

lemma tenths_6: "jsAdd (Finite (1 / 2)) tenth = Finite (5404319552844595 / 9007199254740992)"
  unfolding tenth_def jsAdd.simps roundToDouble_def Let_def
  apply (simp add: binaryExponent_def bitLength.simps)
  apply (simp add: pow2_def roundHalfEven_def)?
  done

lemma tenths_7: "jsAdd (Finite (5404319552844595 / 9007199254740992)) tenth = Finite (3152519739159347 / 4503599627370496)"
  unfolding tenth_def jsAdd.simps roundToDouble_def Let_def
  apply (simp add: binaryExponent_def bitLength.simps)
  apply (simp add: pow2_def roundHalfEven_def)?
  done

lemma tenths_8: "jsAdd (Finite (3152519739159347 / 4503599627370496)) tenth = Finite (7205759403792793 / 9007199254740992)"
  unfolding tenth_def jsAdd.simps roundToDouble_def Let_def
  apply (simp add: binaryExponent_def bitLength.simps)
  apply (simp add: pow2_def roundHalfEven_def)?
  done

lemma tenths_9: "jsAdd (Finite (7205759403792793 / 9007199254740992)) tenth = Finite (2026619832316723 / 2251799813685248)"
  unfolding tenth_def jsAdd.simps roundToDouble_def Let_def
  apply (simp add: binaryExponent_def bitLength.simps)
  apply (simp add: pow2_def roundHalfEven_def)?
  done

lemma tenths_10: "jsAdd (Finite (2026619832316723 / 2251799813685248)) tenth = Finite (9007199254740991 / 9007199254740992)"
  unfolding tenth_def jsAdd.simps roundToDouble_def Let_def
  apply (simp add: binaryExponent_def bitLength.simps)
  apply (simp add: pow2_def roundHalfEven_def)?
  done

lemma ten_tenths:
  "foldl jsAdd (Finite 0) (replicate 10 tenth) = Finite (9007199254740991 / 9007199254740992) \<and>
   \<not> completesAtEnd (Finite 1) (replicate 10 tenth)"
  by (simp add: numeral_eq_Suc completesAtEnd_def tenths_1 tenths_2 tenths_3 tenths_4 tenths_5 tenths_6 tenths_7 tenths_8 tenths_9 tenths_10)


lemma waiting_steps:
  fixes c :: "leaf sequence"
  assumes "state c = Active" "deferredOutputSignal c = None" "childChips c = [(i, a)]"
    "a < length (objects c)" "kind (objects c ! a) = Wait d" "state (objects c ! a) = Active"
    "outputSignal (objects c ! a) = None"
    "s_currentChip c = Some a" "\<not> methodCallInProgress c"
  shows "staysBelow acc d (t # ts) \<Longrightarrow>
     sequence_ticks leafOps (t # ts) (waitingAt c a acc lt) =
       Inr (waitingAt c a (foldl jsAdd acc (t # ts)) (Some \<lparr>timeSinceLastTick = last (t # ts)\<rparr>))"
proof (induction ts arbitrary: acc lt t)
  case Nil
  then have "\<not> jsGe (jsAdd acc t) d" by simp
  from waiting_step[OF assms this, of lt] show ?case by simp
next
  case (Cons t2 ts)
  then have lt: "\<not> jsGe (jsAdd acc t) d" and r: "staysBelow (jsAdd acc t) d (t2 # ts)"
    by simp_all
  from waiting_step[OF assms lt, of lt] Cons.IH[OF r, of "Some \<lparr>timeSinceLastTick = t\<rparr>"]
  show ?case by simp
qed

lemma sequence_ten_tenths:
  "\<exists>c0 c. sequence_activate leafOps ti ctx inp None (twoWaits (Finite 1) d2) = Inr c0 \<and>
      sequence_ticks leafOps (replicate 10 tenth) c0 = Inr c \<and>
      state c = Active \<and> activationCount c = 1 \<and>
      map state (objects c) = [Active, Inactive] \<and>
      accumulatedTime (objects c ! 0) = Some (Finite (9007199254740991 / 9007199254740992))"
proof -
  note ev = twoWaits_def sequence_eval composite_eval child_eval leaf_ops_eval leaf_activate_wait
  obtain c0 where a0: "sequence_activate leafOps ti ctx inp None (twoWaits (Finite 1) d2) = Inr c0"
    by (simp add: ev)
  have q0: "state c0 = Active \<and> deferredOutputSignal c0 = None \<and> childChips c0 = [(''1'', 0)] \<and>
    0 < length (objects c0) \<and> kind (objects c0 ! 0) = Wait (Finite 1) \<and>
    state (objects c0 ! 0) = Active \<and> outputSignal (objects c0 ! 0) = None \<and>
    s_currentChip c0 = Some 0 \<and> \<not> methodCallInProgress c0 \<and>
    accumulatedTime (objects c0 ! 0) = Some (Finite 0) \<and>
    lastTickInfo (objects c0 ! 0) = Some ti \<and> lastTickInfo c0 = Some ti \<and>
    activationCount c0 = 1 \<and> map state (objects c0) = [Active, Inactive]"
    using a0 by (clarsimp simp: ev)
  from q0 have s0: "waitingAt c0 0 (Finite 0) (Some ti) = c0"
    by (intro waitingAt_same) simp_all
  have below: "staysBelow (Finite 0) (Finite 1) (tenth # replicate 9 tenth)"
    by (simp add: numeral_eq_Suc tenths_1 tenths_2 tenths_3 tenths_4 tenths_5 tenths_6
        tenths_7 tenths_8 tenths_9 tenths_10)
  have total: "foldl jsAdd (Finite 0) (replicate 10 tenth) =
                 Finite (9007199254740991 / 9007199254740992)"
    by (simp add: numeral_eq_Suc tenths_1 tenths_2 tenths_3 tenths_4 tenths_5 tenths_6
        tenths_7 tenths_8 tenths_9 tenths_10)
  have rep: "replicate 10 tenth = tenth # replicate 9 tenth" by (simp add: numeral_eq_Suc)
  have h: "state c0 = Active" "deferredOutputSignal c0 = None" "childChips c0 = [(''1'', 0)]"
    "0 < length (objects c0)" "kind (objects c0 ! 0) = Wait (Finite 1)"
    "state (objects c0 ! 0) = Active" "outputSignal (objects c0 ! 0) = None"
    "s_currentChip c0 = Some 0" "\<not> methodCallInProgress c0"
    using q0 by simp_all
  define c where "c = waitingAt c0 0 (Finite (9007199254740991 / 9007199254740992))
                 (Some \<lparr>timeSinceLastTick = last (replicate 10 tenth)\<rparr>)"
  have run: "sequence_ticks leafOps (replicate 10 tenth) c0 = Inr c"
    using waiting_steps[OF h below, of "Some ti"] unfolding s0 rep[symmetric] total c_def .
  have p: "state c = Active \<and> activationCount c = 1 \<and>
      map state (objects c) = [Active, Inactive] \<and>
      accumulatedTime (objects c ! 0) = Some (Finite (9007199254740991 / 9007199254740992))"
    using q0 unfolding c_def
    by (cases c0) (auto simp: waitingAt_def activationCount_def map_update length_Suc_conv)
  from a0 run p show ?thesis
    by (intro exI[of _ c0] exI[of _ c]) (elim conjE, intro conjI, assumption+)
qed

section \<open>Activation after a completed cycle\<close>


text \<open>
  The hook of a composite can fail on a second activation.  \<open>_activateChildChip\<close>
  with the option \<open>attribute\<close> first terminates the chip that the attribute holds; the
  attribute is cleared when that chip emits \<open>terminated\<close>, but \<open>Composite.terminate\<close>
  has unsubscribed from every event before it terminates the children, so the attribute
  still holds the chip of the previous cycle, which is no longer a child.
\<close>

lemma parallel_attribute_second_activation:
  "ebind (parallel_activate leafOps \<lparr>timeSinceLastTick = Finite 0\<rparr> Map.empty None None
            (new_Parallel [(noOptions\<lparr>o_attribute := Some ''child''\<rparr>, SpecChip (new_leaf Forever))] None))
     (\<lambda>c1. ebind (parallel_terminate leafOps None c1) (\<lambda>c2.
        parallel_activate leafOps \<lparr>timeSinceLastTick = Finite 0\<rparr> Map.empty None None c2))
   = Inl CannotFindChipToTerminate"
  by (simp add: parallel_eval composite_eval child_eval leaf_eval2)

section \<open>Termination requested during \<open>activate\<close> and \<open>tick\<close>\<close>

text \<open>
  While \<open>tick\<close> ticks the children every callback runs with the flag set: the tick
  with the callbacks made to fail otherwise is the same tick.
\<close>

lemma deliverTo_onlyInProgress:
  fixes c :: "('c, 'z) composite_scheme"
  assumes "keepsInProgress cb"
  shows "methodCallInProgress c \<Longrightarrow>
     deliverTo cb rs c = deliverTo (onlyInProgress cb) rs c \<and>
     (\<forall>c'. deliverTo cb rs c = Inr c' \<longrightarrow> methodCallInProgress c')"
proof (induction rs arbitrary: c)
  case Nil
  then show ?case by simp
next
  case (Cons r rs)
  define c0 where "c0 = (if r_once r then c\<lparr>registered := remove1 r (registered c)\<rparr> else c)"
  have f0: "methodCallInProgress c0" using Cons.prems by (simp add: c0_def)
  show ?case
  proof (cases "cb (l_cb (r_listener r)) c0")
    case (Inl e)
    then show ?thesis using f0 by (simp add: onlyInProgress_def c0_def[symmetric])
  next
    case (Inr c1)
    with assms f0 have f1: "methodCallInProgress c1" by (auto simp: keepsInProgress_def)
    from Cons.IH[OF f1] Inr f0 show ?thesis by (simp add: onlyInProgress_def c0_def[symmetric])
  qed
qed

lemma deliverEvents_onlyInProgress:
  fixes c :: "('c, 'z) composite_scheme"
  assumes "keepsInProgress cb"
  shows "methodCallInProgress c \<Longrightarrow>
     deliverEvents cb a evs c = deliverEvents (onlyInProgress cb) a evs c \<and>
     (\<forall>c'. deliverEvents cb a evs c = Inr c' \<longrightarrow> methodCallInProgress c')"
proof (induction evs arbitrary: c)
  case Nil
  then show ?case by simp
next
  case (Cons ev evs)
  note d = deliverTo_onlyInProgress[OF assms Cons.prems,
      of "filter (\<lambda>r. l_emitter (r_listener r) = EmObject a \<and> l_event (r_listener r) = eventName ev)
            (registered c)"]
  show ?case
  proof (cases "deliverEvent cb a ev c")
    case (Inl e)
    with d show ?thesis by (simp add: deliverEvent_def)
  next
    case (Inr c1)
    with d have f1: "methodCallInProgress c1" by (simp add: deliverEvent_def)
    from Cons.IH[OF f1] d Inr show ?thesis by (simp add: deliverEvent_def)
  qed
qed

lemma callChild_onlyInProgress:
  fixes c :: "('c, 'z) composite_scheme"
  assumes "keepsInProgress cb" and "methodCallInProgress c"
  shows "callChild ops cb a f c = callChild ops (onlyInProgress cb) a f c \<and>
         (\<forall>c'. callChild ops cb a f c = Inr c' \<longrightarrow> methodCallInProgress c')"
proof (cases "getObject c a")
  case (Inl e)
  then show ?thesis by (simp add: callChild_def)
next
  case (Inr child)
  show ?thesis
  proof (cases "f child")
    case (Inl e)
    with Inr show ?thesis by (simp add: callChild_def)
  next
    case child': (Inr child')
    have "methodCallInProgress (c\<lparr>objects := (objects c)[a := child']\<rparr>)"
      using assms(2) by simp
    from deliverEvents_onlyInProgress[OF assms(1) this] Inr child' show ?thesis
      by (simp add: callChild_def)
  qed
qed

lemma tickLoop_onlyInProgress:
  fixes c :: "('c, 'z) composite_scheme"
  assumes "keepsInProgress cb"
  shows "methodCallInProgress c \<Longrightarrow>
     tickLoop ops cb as c = tickLoop ops (onlyInProgress cb) as c \<and>
     (\<forall>c'. tickLoop ops cb as c = Inr c' \<longrightarrow> methodCallInProgress c')"
proof (induction as arbitrary: c)
  case Nil
  then show ?case by simp
next
  case (Cons a as)
  show ?case
  proof (cases "getObject c a")
    case (Inl e)
    then show ?thesis by simp
  next
    case (Inr child)
    show ?thesis
    proof (cases "op_state ops child \<noteq> Inactive")
      case False
      with Inr Cons.IH[OF Cons.prems] show ?thesis by simp
    next
      case True
      show ?thesis
      proof (cases "lastTickInfo c")
        case None
        with Inr True show ?thesis by simp
      next
        case (Some ti)
        note cc = callChild_onlyInProgress[OF assms Cons.prems, of ops a "op_tick ops ti"]
        show ?thesis
        proof (cases "callChild ops cb a (op_tick ops ti) c")
          case (Inl e)
          with cc have "callChild ops (onlyInProgress cb) a (op_tick ops ti) c = Inl e" by simp
          with Inl Inr True Some show ?thesis by simp
        next
          case c1: (Inr c1)
          with cc have f1: "methodCallInProgress c1" by simp
          from cc c1 have g: "callChild ops (onlyInProgress cb) a (op_tick ops ti) c = Inr c1" by simp
          from Cons.IH[OF f1] g c1 Inr True Some show ?thesis by simp
        qed
      qed
    qed
  qed
qed

lemma composite_tick_onlyInProgress:
  assumes "state c = Active" and "deferredOutputSignal c = None" and "keepsInProgress cb"
  shows "composite_tick ops cb onTerminate onTick onAfterTick ti c =
         composite_tick ops (onlyInProgress cb) onTerminate onTick onAfterTick ti c"
proof (cases "onTick (c\<lparr>lastTickInfo := Some ti\<rparr>)")
  case (Inl e)
  with assms show ?thesis by (simp add: composite_tick_def)
next
  case (Inr c1)
  have "methodCallInProgress (c1\<lparr>methodCallInProgress := True\<rparr>)" by simp
  from tickLoop_onlyInProgress[OF assms(3) this, of ops "map snd (childChips c1)"]
  have "tickChildChips ops cb (c1\<lparr>methodCallInProgress := True\<rparr>) =
        tickChildChips ops (onlyInProgress cb) (c1\<lparr>methodCallInProgress := True\<rparr>)"
    by (simp add: tickChildChips_def)
  with assms Inr show ?thesis by (simp add: composite_tick_def)
qed

lemma compositeCallback_keepsInProgress: "keepsInProgress compositeCallback"
  by (auto simp: keepsInProgress_def compositeCallback_def resize_def emit_def
      split: callbackRef.splits option.splits attributeValue.splits)

lemma alternativeCallback_keepsInProgress: "keepsInProgress (alternativeCallback ops)"
proof -
  have "\<And>ref x x'. methodCallInProgress x \<Longrightarrow> alternativeCallback ops ref x = Inr x' \<Longrightarrow>
          methodCallInProgress x'"
  proof -
    fix ref x x'
    assume f: "methodCallInProgress x" and r: "alternativeCallback ops ref x = Inr x'"
    show "methodCallInProgress x'"
    proof (cases ref)
      case (CbOnChildTerminated i)
      with r f show ?thesis
        by (auto simp: alternativeCallback_def alternative_onChildTerminated_def
            alternative_terminate_def composite_terminate_def Let_def split: if_splits)
    qed (use r f compositeCallback_keepsInProgress in
          \<open>auto simp: alternativeCallback_def keepsInProgress_def\<close>)
  qed
  then show ?thesis unfolding keepsInProgress_def by blast
qed

text \<open>
  The hooks \<open>_onTick\<close> and \<open>_onAfterTick\<close> run with the flag cleared: a composite
  without children whose hook calls \<open>terminate\<close> is inactive, with its output signal,
  when \<open>tick\<close> returns.  So is a \<open>Parallel\<close> over a \<open>Wait\<close> chip after the tick
  that completes the chip: \<open>Parallel._onAfterTick\<close> calls \<open>terminate\<close>.
\<close>

lemma composite_tick_hook_terminates:
  assumes "state c = Active" "deferredOutputSignal c = None" "\<not> methodCallInProgress c"
    "childChips c = []"
  shows "(\<exists>c1. composite_tick ops cb noHook (composite_terminate ops cb noHook sig) noHook ti c
                  = Inr c1 \<and>
               state c1 = Inactive \<and> deferredOutputSignal c1 = None \<and>
               outputSignal c1 = Some (case sig of None \<Rightarrow> new_Signal None None | Some s \<Rightarrow> s)) \<and>
         (\<exists>c1. composite_tick ops cb noHook noHook (composite_terminate ops cb noHook sig) ti c
                  = Inr c1 \<and>
               state c1 = Inactive \<and> deferredOutputSignal c1 = None \<and>
               outputSignal c1 = Some (case sig of None \<Rightarrow> new_Signal None None | Some s \<Rightarrow> s))"
  using assms
  by (simp add: composite_tick_def composite_terminate_def noHook_def tickChildChips_def
      terminateAllChildChips_def removeTerminatedChildChips_def unsubscribe_def emit_def Let_def
      split: prod.splits)

lemma parallel_terminates_in_tick:
  assumes "jsGe (jsAdd (Finite 0) t) d"
  shows "\<exists>c1 c2. parallel_activate leafOps ti ctx inp None
                    (new_Parallel [bare (SpecChip (new_leaf (Wait d)))] None) = Inr c1 \<and>
           state c1 = Active \<and> deferredOutputSignal c1 = None \<and>
           parallel_tick leafOps \<lparr>timeSinceLastTick = t\<rparr> c1 = Inr c2 \<and>
           state c2 = Inactive \<and> outputSignal c2 = Some (new_Signal None None) \<and>
           deferredOutputSignal c2 = None"
proof -
  note ev = parallel_eval composite_eval child_eval leaf_ops_eval leaf_activate_wait
  obtain c1 where a1: "parallel_activate leafOps ti ctx inp None
                    (new_Parallel [bare (SpecChip (new_leaf (Wait d)))] None) = Inr c1"
    by (simp add: ev)
  have p1: "state c1 = Active \<and> deferredOutputSignal c1 = None"
    using a1 by (clarsimp simp: ev)
  obtain c2 where a2: "parallel_tick leafOps \<lparr>timeSinceLastTick = t\<rparr> c1 = Inr c2"
    using a1 assms by (clarsimp simp: ev)
  have p2: "state c2 = Inactive \<and> outputSignal c2 = Some (new_Signal None None) \<and>
           deferredOutputSignal c2 = None"
    using a1 a2 assms by (clarsimp simp: ev)
  from a1 p1 a2 p2 show ?thesis by (intro exI[of _ c1] exI[of _ c2]) simp
qed

text \<open>
  A child that terminates its parent during a tick: an \<open>Alternative\<close> over a \<open>Wait\<close>
  chip and a chip that never terminates.  The tick that completes the \<open>Wait\<close> chip
  leaves the \<open>Alternative\<close> active, the signal stored, the second child active; the
  next tick terminates the \<open>Alternative\<close> with the stored signal.
\<close>

lemma alternative_child_terminates_during_tick:
  assumes "jsGe (jsAdd (Finite 0) t) d" and "k2 = Forever \<or> k2 = Block"
  shows "\<exists>c1 c2 c3.
           alternative_activate leafOps ti ctx inp m
             (new_Alternative [(o1, SpecChip (new_leaf (Wait d)), sig0),
                               (o2, SpecChip (new_leaf k2), sig1)]) = Inr c1 \<and>
           state c1 = Active \<and> deferredOutputSignal c1 = None \<and>
           map state (objects c1) = [Active, Active] \<and>
           alternative_tick leafOps \<lparr>timeSinceLastTick = t\<rparr> c1 = Inr c2 \<and>
           state c2 = Active \<and> outputSignal c2 = None \<and>
           deferredOutputSignal c2 =
             Some (case sig0 of Some s \<Rightarrow> s | None \<Rightarrow> new_Signal (Some ''0'') None) \<and>
           map state (objects c2) = [Inactive, Active] \<and>
           alternative_tick leafOps ti' c2 = Inr c3 \<and>
           state c3 = Inactive \<and>
           outputSignal c3 =
             Some (case sig0 of Some s \<Rightarrow> s | None \<Rightarrow> new_Signal (Some ''0'') None) \<and>
           map state (objects c3) = [Inactive, Inactive]"
proof -
  note ev = alternative_eval composite_eval child_eval leaf_ops_eval
    leaf_activate_wait leaf_activate_idle[of Forever, simplified] leaf_activate_idle[of Block, simplified]
  obtain c1 where a1: "alternative_activate leafOps ti ctx inp m
             (new_Alternative [(o1, SpecChip (new_leaf (Wait d)), sig0),
                               (o2, SpecChip (new_leaf k2), sig1)]) = Inr c1"
    using assms(2) by (elim disjE) (simp_all add: ev)
  have p1: "state c1 = Active \<and> deferredOutputSignal c1 = None \<and>
           map state (objects c1) = [Active, Active]"
    using a1 assms(2) by (elim disjE) (clarsimp simp: ev)+
  obtain c2 where a2: "alternative_tick leafOps \<lparr>timeSinceLastTick = t\<rparr> c1 = Inr c2"
    using a1 assms by (cases sig0; elim disjE) (clarsimp simp: ev)+
  have p2: "state c2 = Active \<and> outputSignal c2 = None \<and>
           deferredOutputSignal c2 =
             Some (case sig0 of Some s \<Rightarrow> s | None \<Rightarrow> new_Signal (Some ''0'') None) \<and>
           map state (objects c2) = [Inactive, Active]"
    using a1 a2 assms by (cases sig0; elim disjE) (clarsimp simp: ev)+
  obtain c3 where a3: "alternative_tick leafOps ti' c2 = Inr c3"
    using a1 a2 assms by (cases sig0; elim disjE) (clarsimp simp: ev)+
  have p3: "state c3 = Inactive \<and>
           outputSignal c3 =
             Some (case sig0 of Some s \<Rightarrow> s | None \<Rightarrow> new_Signal (Some ''0'') None) \<and>
           map state (objects c3) = [Inactive, Inactive]"
    using a1 a2 a3 assms by (cases sig0; elim disjE) (clarsimp simp: ev)+
  from a1 p1 a2 p2 a3 p3 show ?thesis
    by (intro exI[of _ c1] exI[of _ c2] exI[of _ c3]) simp
qed

text \<open>
  Claim C1, as amended.  \<open>terminate\<close> is deferred exactly while the flag
  \<open>_methodCallInProgress\<close> is set: then the call only stores the signal, and the
  state, the output signal and the children are as before.  The flag is set while
  \<open>activate\<close> runs the base activation and its hook, so a composite whose activation
  hook asks for termination is still active, without output signal, when \<open>activate\<close>
  returns.  It is set while \<open>tick\<close> ticks the children: every callback for an event
  of a child runs with the flag set, and an \<open>Alternative\<close> whose child terminates
  during a tick is still active after that tick and terminates in the next.  It is not
  set while \<open>tick\<close> runs the hooks \<open>_onTick\<close> and \<open>_onAfterTick\<close>: a termination
  requested there is carried out in that tick, as for a \<open>Parallel\<close> whose last child
  has terminated.  A tick of an active composite that holds a stored signal is the
  termination with that signal and nothing else: the result does not depend on the tick
  hook, on the after-tick hook, on the tick time, or on what the children do on a tick.
\<close>

theorem composite_deferred_termination:
  "(state c \<noteq> Inactive \<and> methodCallInProgress c \<longrightarrow>
      composite_terminate ops cb onTerminate sig c =
        Inr (c\<lparr>deferredOutputSignal :=
                 Some (case sig of None \<Rightarrow> new_Signal None None | Some s \<Rightarrow> s)\<rparr>)) \<and>
   (state c0 = Inactive \<longrightarrow>
      (\<exists>c1. composite_activate cname (composite_terminate ops cb onTerminate sig) ti ctx inp m c0
               = Inr c1 \<and>
             state c1 = Active \<and> outputSignal c1 = None \<and> \<not> methodCallInProgress c1 \<and>
             deferredOutputSignal c1 =
               Some (case sig of None \<Rightarrow> new_Signal None None | Some s \<Rightarrow> s))) \<and>
   (state e = Active \<and> deferredOutputSignal e = None \<and> keepsInProgress cb \<longrightarrow>
      composite_tick ops cb onTerminate onTick onAfterTick ti e =
        composite_tick ops (onlyInProgress cb) onTerminate onTick onAfterTick ti e) \<and>
   (jsGe (jsAdd (Finite 0) t) w \<and> (k2 = Forever \<or> k2 = Block) \<longrightarrow>
      (\<exists>c1 c2 c3.
           alternative_activate leafOps ti ctx inp m
             (new_Alternative [(o1, SpecChip (new_leaf (Wait w)), sig0),
                               (o2, SpecChip (new_leaf k2), sig1)]) = Inr c1 \<and>
           state c1 = Active \<and> deferredOutputSignal c1 = None \<and>
           map state (objects c1) = [Active, Active] \<and>
           alternative_tick leafOps \<lparr>timeSinceLastTick = t\<rparr> c1 = Inr c2 \<and>
           state c2 = Active \<and> outputSignal c2 = None \<and>
           deferredOutputSignal c2 =
             Some (case sig0 of Some s \<Rightarrow> s | None \<Rightarrow> new_Signal (Some ''0'') None) \<and>
           map state (objects c2) = [Inactive, Active] \<and>
           alternative_tick leafOps ti' c2 = Inr c3 \<and>
           state c3 = Inactive \<and>
           outputSignal c3 =
             Some (case sig0 of Some s \<Rightarrow> s | None \<Rightarrow> new_Signal (Some ''0'') None) \<and>
           map state (objects c3) = [Inactive, Inactive])) \<and>
   (state g = Active \<and> deferredOutputSignal g = None \<and> \<not> methodCallInProgress g \<and>
    childChips g = [] \<longrightarrow>
      (\<exists>c1. composite_tick ops cb noHook (composite_terminate ops cb noHook sig) noHook ti g
                  = Inr c1 \<and>
             state c1 = Inactive \<and> deferredOutputSignal c1 = None \<and>
             outputSignal c1 = Some (case sig of None \<Rightarrow> new_Signal None None | Some s \<Rightarrow> s)) \<and>
      (\<exists>c1. composite_tick ops cb noHook noHook (composite_terminate ops cb noHook sig) ti g
                  = Inr c1 \<and>
             state c1 = Inactive \<and> deferredOutputSignal c1 = None \<and>
             outputSignal c1 = Some (case sig of None \<Rightarrow> new_Signal None None | Some s \<Rightarrow> s))) \<and>
   (jsGe (jsAdd (Finite 0) t) w \<longrightarrow>
      (\<exists>c1 c2. parallel_activate leafOps ti ctx inp None
                    (new_Parallel [bare (SpecChip (new_leaf (Wait w)))] None) = Inr c1 \<and>
           state c1 = Active \<and> deferredOutputSignal c1 = None \<and>
           parallel_tick leafOps \<lparr>timeSinceLastTick = t\<rparr> c1 = Inr c2 \<and>
           state c2 = Inactive \<and> outputSignal c2 = Some (new_Signal None None) \<and>
           deferredOutputSignal c2 = None)) \<and>
   (state d = Active \<and> deferredOutputSignal d = Some s \<longrightarrow>
      composite_tick ops cb onTerminate onTick onAfterTick ti d =
        composite_terminate ops cb onTerminate (Some s) d \<and>
      composite_tick ops cb onTerminate onTick onAfterTick ti d =
        composite_tick (ops\<lparr>op_tick := tk\<rparr>) cb onTerminate onTick' onAfterTick' ti' d)"
proof -
  have p1: "state c \<noteq> Inactive \<and> methodCallInProgress c \<longrightarrow>
      composite_terminate ops cb onTerminate sig c =
        Inr (c\<lparr>deferredOutputSignal :=
                 Some (case sig of None \<Rightarrow> new_Signal None None | Some s \<Rightarrow> s)\<rparr>)"
    using composite_terminate_deferred[of c ops cb onTerminate sig] by simp
  have p2: "state c0 = Inactive \<longrightarrow>
      (\<exists>c1. composite_activate cname (composite_terminate ops cb onTerminate sig) ti ctx inp m c0
               = Inr c1 \<and>
             state c1 = Active \<and> outputSignal c1 = None \<and> \<not> methodCallInProgress c1 \<and>
             deferredOutputSignal c1 =
               Some (case sig of None \<Rightarrow> new_Signal None None | Some s \<Rightarrow> s))"
    using composite_activate_terminating_hook[of c0 cname ops cb onTerminate sig ti ctx inp m]
    by simp
  have p3: "state e = Active \<and> deferredOutputSignal e = None \<and> keepsInProgress cb \<longrightarrow>
      composite_tick ops cb onTerminate onTick onAfterTick ti e =
        composite_tick ops (onlyInProgress cb) onTerminate onTick onAfterTick ti e"
    using composite_tick_onlyInProgress[of e cb ops onTerminate onTick onAfterTick ti] by simp
  have p4: "jsGe (jsAdd (Finite 0) t) w \<and> (k2 = Forever \<or> k2 = Block) \<longrightarrow>
      (\<exists>c1 c2 c3.
           alternative_activate leafOps ti ctx inp m
             (new_Alternative [(o1, SpecChip (new_leaf (Wait w)), sig0),
                               (o2, SpecChip (new_leaf k2), sig1)]) = Inr c1 \<and>
           state c1 = Active \<and> deferredOutputSignal c1 = None \<and>
           map state (objects c1) = [Active, Active] \<and>
           alternative_tick leafOps \<lparr>timeSinceLastTick = t\<rparr> c1 = Inr c2 \<and>
           state c2 = Active \<and> outputSignal c2 = None \<and>
           deferredOutputSignal c2 =
             Some (case sig0 of Some s \<Rightarrow> s | None \<Rightarrow> new_Signal (Some ''0'') None) \<and>
           map state (objects c2) = [Inactive, Active] \<and>
           alternative_tick leafOps ti' c2 = Inr c3 \<and>
           state c3 = Inactive \<and>
           outputSignal c3 =
             Some (case sig0 of Some s \<Rightarrow> s | None \<Rightarrow> new_Signal (Some ''0'') None) \<and>
           map state (objects c3) = [Inactive, Inactive])"
    by (intro impI, elim conjE) (rule alternative_child_terminates_during_tick)
  have p5: "state g = Active \<and> deferredOutputSignal g = None \<and> \<not> methodCallInProgress g \<and>
    childChips g = [] \<longrightarrow>
      (\<exists>c1. composite_tick ops cb noHook (composite_terminate ops cb noHook sig) noHook ti g
                  = Inr c1 \<and>
             state c1 = Inactive \<and> deferredOutputSignal c1 = None \<and>
             outputSignal c1 = Some (case sig of None \<Rightarrow> new_Signal None None | Some s \<Rightarrow> s)) \<and>
      (\<exists>c1. composite_tick ops cb noHook noHook (composite_terminate ops cb noHook sig) ti g
                  = Inr c1 \<and>
             state c1 = Inactive \<and> deferredOutputSignal c1 = None \<and>
             outputSignal c1 = Some (case sig of None \<Rightarrow> new_Signal None None | Some s \<Rightarrow> s))"
    by (intro impI, elim conjE) (rule composite_tick_hook_terminates)
  have p6: "jsGe (jsAdd (Finite 0) t) w \<longrightarrow>
      (\<exists>c1 c2. parallel_activate leafOps ti ctx inp None
                    (new_Parallel [bare (SpecChip (new_leaf (Wait w)))] None) = Inr c1 \<and>
           state c1 = Active \<and> deferredOutputSignal c1 = None \<and>
           parallel_tick leafOps \<lparr>timeSinceLastTick = t\<rparr> c1 = Inr c2 \<and>
           state c2 = Inactive \<and> outputSignal c2 = Some (new_Signal None None) \<and>
           deferredOutputSignal c2 = None)"
    by (intro impI) (rule parallel_terminates_in_tick)
  have p7: "state d = Active \<and> deferredOutputSignal d = Some s \<longrightarrow>
      composite_tick ops cb onTerminate onTick onAfterTick ti d =
        composite_terminate ops cb onTerminate (Some s) d \<and>
      composite_tick ops cb onTerminate onTick onAfterTick ti d =
        composite_tick (ops\<lparr>op_tick := tk\<rparr>) cb onTerminate onTick' onAfterTick' ti' d"
    using composite_tick_deferred[of d s ops cb onTerminate onTick onAfterTick ti]
      composite_tick_deferred[of d s "ops\<lparr>op_tick := tk\<rparr>" cb onTerminate onTick' onAfterTick' ti']
      composite_terminate_op_tick[where ops=ops and tk=tk and cb=cb and onTerminate=onTerminate
        and sig="Some s" and c=d]
    by simp
  from p1 p2 p3 p4 p5 p6 p7 show ?thesis by (intro conjI)
qed

theorem composite_deferred_termination_witness:
  "(\<exists>c1 c2 c3.
      alternative_activate leafOps \<lparr>timeSinceLastTick = Finite 0\<rparr> Map.empty None None
        (new_Alternative [(noOptions, SpecChip (new_leaf (Wait (Finite 10))), None),
                          (noOptions, SpecChip (new_leaf Forever), None)]) = Inr c1 \<and>
      state c1 = Active \<and> deferredOutputSignal c1 = None \<and>
      alternative_tick leafOps \<lparr>timeSinceLastTick = Finite 10\<rparr> c1 = Inr c2 \<and>
      state c2 = Active \<and> outputSignal c2 = None \<and>
      deferredOutputSignal c2 = Some (new_Signal (Some ''0'') None) \<and>
      map state (objects c2) = [Inactive, Active] \<and>
      alternative_tick leafOps \<lparr>timeSinceLastTick = Finite 16\<rparr> c2 = Inr c3 \<and>
      state c3 = Inactive \<and> outputSignal c3 = Some (new_Signal (Some ''0'') None) \<and>
      map state (objects c3) = [Inactive, Inactive] \<and>
      composite_tick leafOps (alternativeCallback leafOps) noHook noHook noHook
          \<lparr>timeSinceLastTick = Finite 10\<rparr> c1 =
        composite_tick leafOps (onlyInProgress (alternativeCallback leafOps)) noHook noHook noHook
          \<lparr>timeSinceLastTick = Finite 10\<rparr> c1 \<and>
      composite_tick leafOps (alternativeCallback leafOps) noHook noHook noHook
          \<lparr>timeSinceLastTick = Finite 10\<rparr> c2 =
        composite_terminate leafOps (alternativeCallback leafOps) noHook
          (Some (new_Signal (Some ''0'') None)) c2 \<and>
      composite_terminate leafOps (alternativeCallback leafOps) noHook None
          (c1\<lparr>methodCallInProgress := True\<rparr>) =
        Inr (c1\<lparr>methodCallInProgress := True,
               deferredOutputSignal := Some (new_Signal None None)\<rparr>)) \<and>
   (\<exists>a1. composite_activate ''Alternative''
            (composite_terminate leafOps (alternativeCallback leafOps) noHook None)
            \<lparr>timeSinceLastTick = Finite 10\<rparr> Map.empty None None
            (new_Alternative [(noOptions, SpecChip (new_leaf (Wait (Finite 10))), None),
                              (noOptions, SpecChip (new_leaf Forever), None)]) = Inr a1 \<and>
          state a1 = Active \<and> outputSignal a1 = None \<and>
          deferredOutputSignal a1 = Some (new_Signal None None)) \<and>
   (\<exists>p1 p2. parallel_activate leafOps \<lparr>timeSinceLastTick = Finite 10\<rparr> Map.empty None None
               (new_Parallel [bare (SpecChip (new_leaf (Wait (Finite 10))))] None) = Inr p1 \<and>
            parallel_tick leafOps \<lparr>timeSinceLastTick = Finite 10\<rparr> p1 = Inr p2 \<and>
            state p2 = Inactive \<and> outputSignal p2 = Some (new_Signal None None)) \<and>
   (\<exists>g g1. parallel_activate leafOps \<lparr>timeSinceLastTick = Finite 0\<rparr> Map.empty None None
               (new_Parallel [] (Some False)) = Inr g \<and>
            state g = Active \<and> childChips g = [] \<and>
            composite_tick leafOps compositeCallback noHook
              (composite_terminate leafOps compositeCallback noHook None) noHook
              \<lparr>timeSinceLastTick = Finite 10\<rparr> g = Inr g1 \<and>
            state g1 = Inactive \<and> outputSignal g1 = Some (new_Signal None None))"
proof -
  define A0 :: "leaf alternative" where
    "A0 = new_Alternative [(noOptions, SpecChip (new_leaf (Wait (Finite 10))), None),
                           (noOptions, SpecChip (new_leaf Forever), None)]"
  define T0 where "T0 = \<lparr>timeSinceLastTick = Finite 0\<rparr>"
  define T10 where "T10 = \<lparr>timeSinceLastTick = Finite 10\<rparr>"
  define T16 where "T16 = \<lparr>timeSinceLastTick = Finite 16\<rparr>"
  have h4: "jsGe (jsAdd (Finite 0) (Finite 10)) (Finite 10) \<and> (Forever = Forever \<or> Forever = Block)"
    by simp
  have sA0: "state A0 = Inactive" by (simp add: A0_def new_Alternative_def allocSpec_def)
  note first = composite_deferred_termination[where t="Finite 10" and w="Finite 10" and ?k2.0=Forever
      and ti=T0 and ctx=Map.empty and inp=None and m=None and ?o1.0=noOptions and ?sig0.0=None
      and ?o2.0=noOptions and ?sig1.0=None and ti'=T16 and ?c0.0=A0 and cname="''Alternative''"
      and ops=leafOps and cb="alternativeCallback leafOps" and onTerminate=noHook and sig=None]
  note f4 = first[THEN conjunct2, THEN conjunct2, THEN conjunct2, THEN conjunct1, rule_format, OF h4]
  have f4': "\<exists>c1 c2 c3.
      alternative_activate leafOps T0 Map.empty None None A0 = Inr c1 \<and>
      state c1 = Active \<and> deferredOutputSignal c1 = None \<and>
      map state (objects c1) = [Active, Active] \<and>
      alternative_tick leafOps T10 c1 = Inr c2 \<and>
      state c2 = Active \<and> outputSignal c2 = None \<and>
      deferredOutputSignal c2 = Some (new_Signal (Some ''0'') None) \<and>
      map state (objects c2) = [Inactive, Active] \<and>
      alternative_tick leafOps T16 c2 = Inr c3 \<and>
      state c3 = Inactive \<and> outputSignal c3 = Some (new_Signal (Some ''0'') None) \<and>
      map state (objects c3) = [Inactive, Inactive]"
    using f4 unfolding A0_def T0_def T10_def T16_def by simp
  then obtain c1 c2 c3 where
    a1: "alternative_activate leafOps T0 Map.empty None None A0 = Inr c1" and
    p1: "state c1 = Active" "deferredOutputSignal c1 = None" and
    p1': "map state (objects c1) = [Active, Active]" and
    a2: "alternative_tick leafOps T10 c1 = Inr c2" and
    p2: "state c2 = Active" "outputSignal c2 = None"
        "deferredOutputSignal c2 = Some (new_Signal (Some ''0'') None)"
        "map state (objects c2) = [Inactive, Active]" and
    a3: "alternative_tick leafOps T16 c2 = Inr c3" and
    p3: "state c3 = Inactive" "outputSignal c3 = Some (new_Signal (Some ''0'') None)"
        "map state (objects c3) = [Inactive, Inactive]"
    by (elim exE conjE) (rule that)
  note second = composite_deferred_termination[where c="c1\<lparr>methodCallInProgress := True\<rparr>"
      and e=c1 and d=c2 and ?c0.0=A0 and cname="''Alternative''" and s="new_Signal (Some ''0'') None"
      and ops=leafOps and cb="alternativeCallback leafOps" and onTerminate=noHook and sig=None
      and onTick=noHook and onAfterTick=noHook and ti=T10 and ctx=Map.empty and inp=None and m=None
      and tk=leaf_tick and onTick'=noHook and onAfterTick'=noHook and ti'=T10]
  have r1: "composite_terminate leafOps (alternativeCallback leafOps) noHook None
          (c1\<lparr>methodCallInProgress := True\<rparr>) =
        Inr (c1\<lparr>methodCallInProgress := True,
               deferredOutputSignal := Some (new_Signal None None)\<rparr>)"
    using second[THEN conjunct1] p1 by simp
  have r2: "\<exists>a1. composite_activate ''Alternative''
            (composite_terminate leafOps (alternativeCallback leafOps) noHook None)
            T10 Map.empty None None A0 = Inr a1 \<and>
          state a1 = Active \<and> outputSignal a1 = None \<and>
          deferredOutputSignal a1 = Some (new_Signal None None)"
    using second[THEN conjunct2, THEN conjunct1] sA0 by auto
  have r3: "composite_tick leafOps (alternativeCallback leafOps) noHook noHook noHook T10 c1 =
        composite_tick leafOps (onlyInProgress (alternativeCallback leafOps)) noHook noHook noHook T10 c1"
    using second[THEN conjunct2, THEN conjunct2, THEN conjunct1] p1 alternativeCallback_keepsInProgress[of leafOps] by blast
  have r7: "composite_tick leafOps (alternativeCallback leafOps) noHook noHook noHook T10 c2 =
        composite_terminate leafOps (alternativeCallback leafOps) noHook
          (Some (new_Signal (Some ''0'') None)) c2"
    using second[THEN conjunct2, THEN conjunct2, THEN conjunct2, THEN conjunct2, THEN conjunct2, THEN conjunct2] p2 by blast
  obtain g where g: "parallel_activate leafOps T0 Map.empty None None
               (new_Parallel [] (Some False)) = Inr (g :: leaf parallel)"
    and gp: "state g = Active" "childChips g = []" "deferredOutputSignal g = None"
        "\<not> methodCallInProgress g"
    by (simp add: T0_def parallel_eval composite_eval)
  note third = composite_deferred_termination[where g=g and t="Finite 10" and w="Finite 10"
      and ti=T10 and ctx=Map.empty and inp=None
      and ops=leafOps and cb=compositeCallback and sig=None]
  have r5: "\<exists>g1. composite_tick leafOps compositeCallback noHook
              (composite_terminate leafOps compositeCallback noHook None) noHook T10 g = Inr g1 \<and>
            state g1 = Inactive \<and> outputSignal g1 = Some (new_Signal None None)"
    using third[THEN conjunct2, THEN conjunct2, THEN conjunct2, THEN conjunct2, THEN conjunct1] gp by auto
  have r6: "\<exists>p1 p2. parallel_activate leafOps T10 Map.empty None None
               (new_Parallel [bare (SpecChip (new_leaf (Wait (Finite 10))))] None) = Inr p1 \<and>
            parallel_tick leafOps T10 p1 = Inr p2 \<and>
            state p2 = Inactive \<and> outputSignal p2 = Some (new_Signal None None)"
    using third[THEN conjunct2, THEN conjunct2, THEN conjunct2, THEN conjunct2, THEN conjunct2, THEN conjunct1] h4 unfolding T10_def by auto
  have rA: "\<exists>c1 c2 c3.
      alternative_activate leafOps T0 Map.empty None None A0 = Inr c1 \<and>
      state c1 = Active \<and> deferredOutputSignal c1 = None \<and>
      alternative_tick leafOps T10 c1 = Inr c2 \<and>
      state c2 = Active \<and> outputSignal c2 = None \<and>
      deferredOutputSignal c2 = Some (new_Signal (Some ''0'') None) \<and>
      map state (objects c2) = [Inactive, Active] \<and>
      alternative_tick leafOps T16 c2 = Inr c3 \<and>
      state c3 = Inactive \<and> outputSignal c3 = Some (new_Signal (Some ''0'') None) \<and>
      map state (objects c3) = [Inactive, Inactive] \<and>
      composite_tick leafOps (alternativeCallback leafOps) noHook noHook noHook T10 c1 =
        composite_tick leafOps (onlyInProgress (alternativeCallback leafOps)) noHook noHook noHook T10 c1 \<and>
      composite_tick leafOps (alternativeCallback leafOps) noHook noHook noHook T10 c2 =
        composite_terminate leafOps (alternativeCallback leafOps) noHook
          (Some (new_Signal (Some ''0'') None)) c2 \<and>
      composite_terminate leafOps (alternativeCallback leafOps) noHook None
          (c1\<lparr>methodCallInProgress := True\<rparr>) =
        Inr (c1\<lparr>methodCallInProgress := True,
               deferredOutputSignal := Some (new_Signal None None)\<rparr>)"
    by (rule exI[of _ c1], rule exI[of _ c2], rule exI[of _ c3])
       (intro conjI a1 p1 a2 p2 a3 p3 r3 r7 r1)
  have rG: "\<exists>g g1. parallel_activate leafOps T0 Map.empty None None
               (new_Parallel [] (Some False)) = Inr g \<and>
            state g = Active \<and> childChips g = [] \<and>
            composite_tick leafOps compositeCallback noHook
              (composite_terminate leafOps compositeCallback noHook None) noHook T10 g = Inr g1 \<and>
            state g1 = Inactive \<and> outputSignal g1 = Some (new_Signal None None)"
    using r5 g gp by (elim exE conjE) (rule exI[of _ g], rule exI, intro conjI, assumption+)
  from rA r2 r6 rG show ?thesis
    unfolding A0_def T0_def T10_def T16_def by (intro conjI)
qed

end
